theory Spec2Isabelle
  imports Main
begin

section \<open>Python strings\<close>

text \<open>
  A Python \<open>str\<close> is a sequence of Unicode code points, and \<open>len\<close> counts code points.
  The stoplist of the normalizer and its character classes are Thai, so a string is a list
  of code points; \<open>u\<close> embeds an ASCII literal.
\<close>

type_synonym ustr = "nat list"

definition u :: "string \<Rightarrow> ustr" where
  "u s = map of_char s"

text \<open>
  \<open>str.isspace\<close> on one character, which is also the class \<open>\s\<close> of \<open>re\<close> on a \<open>str\<close>
  pattern and the set that \<open>str.strip()\<close> and \<open>str.split()\<close> use: U+0009..U+000D,
  U+001C..U+0020, U+0085, U+00A0, U+1680, U+2000..U+200A, U+2028, U+2029, U+202F, U+205F,
  U+3000.
\<close>

definition isspace :: "nat \<Rightarrow> bool" where
  "isspace c = ((9 \<le> c \<and> c \<le> 13) \<or> (28 \<le> c \<and> c \<le> 32) \<or> c = 133 \<or> c = 160 \<or> c = 5760
     \<or> (8192 \<le> c \<and> c \<le> 8202) \<or> c = 8232 \<or> c = 8233 \<or> c = 8239 \<or> c = 8287 \<or> c = 12288)"

text \<open>The line boundaries of \<open>str.splitlines()\<close>; a CR LF pair is one boundary.\<close>

definition is_linebreak :: "nat \<Rightarrow> bool" where
  "is_linebreak c = ((10 \<le> c \<and> c \<le> 13) \<or> (28 \<le> c \<and> c \<le> 30) \<or> c = 133 \<or> c = 8232 \<or> c = 8233)"

fun splitlines_from :: "ustr \<Rightarrow> ustr \<Rightarrow> ustr list" where
  "splitlines_from ln [] = (if ln = [] then [] else [ln])"
| "splitlines_from ln (c # cs) =
     (if c = 13 \<and> cs \<noteq> [] \<and> hd cs = 10 then ln # splitlines_from [] (tl cs)
      else if is_linebreak c then ln # splitlines_from [] cs
      else splitlines_from (ln @ [c]) cs)"

definition splitlines :: "ustr \<Rightarrow> ustr list" where
  "splitlines s = splitlines_from [] s"

text \<open>\<open>str.strip()\<close>: leading and trailing whitespace removed.\<close>

fun rstrip :: "ustr \<Rightarrow> ustr" where
  "rstrip [] = []"
| "rstrip (c # cs) =
     (case rstrip cs of
        [] \<Rightarrow> if isspace c then [] else [c]
      | r # rs \<Rightarrow> c # r # rs)"

definition strip :: "ustr \<Rightarrow> ustr" where
  "strip s = rstrip (dropWhile isspace s)"

text \<open>\<open>str.split()\<close> without arguments: the maximal runs of non-whitespace characters.\<close>

fun split_from :: "ustr \<Rightarrow> ustr \<Rightarrow> ustr list" where
  "split_from w [] = (if w = [] then [] else [w])"
| "split_from w (c # cs) =
     (if isspace c then (if w = [] then split_from [] cs else w # split_from [] cs)
      else split_from (w @ [c]) cs)"

definition split :: "ustr \<Rightarrow> ustr list" where
  "split s = split_from [] s"

text \<open>\<open>sep.join(xs)\<close>.\<close>

fun join :: "ustr \<Rightarrow> ustr list \<Rightarrow> ustr" where
  "join sep [] = []"
| "join sep [x] = x"
| "join sep (x # y # ys) = x @ sep @ join sep (y # ys)"

text \<open>\<open>j in ln\<close> on strings: \<open>j\<close> occurs in \<open>ln\<close> as a contiguous substring.\<close>

fun startswith :: "ustr \<Rightarrow> ustr \<Rightarrow> bool" where
  "startswith s [] = True"
| "startswith [] (p # ps) = False"
| "startswith (c # cs) (p # ps) = (c = p \<and> startswith cs ps)"

fun contains :: "ustr \<Rightarrow> ustr \<Rightarrow> bool" where
  "contains j [] = (j = [])"
| "contains j (c # cs) = (startswith (c # cs) j \<or> contains j cs)"

text \<open>\<open>re.sub(r"\s+", " ", text)\<close>: every maximal run of whitespace becomes one space.\<close>

function collapse_ws :: "ustr \<Rightarrow> ustr" where
  "collapse_ws [] = []"
| "collapse_ws (c # cs) =
     (if isspace c then 32 # collapse_ws (dropWhile isspace cs) else c # collapse_ws cs)"
  by pat_completeness auto
termination
  by (relation "measure length") (auto simp: length_dropWhile_le less_Suc_eq_le)

section \<open>Exceptions\<close>

text \<open>
  An exception is a value: \<open>PyException msg\<close> is an instance of \<open>Exception\<close> whose
  \<open>str(e)\<close> is \<open>msg\<close>. A function that may raise returns \<open>Inl e\<close> for the exception
  \<open>e\<close> and \<open>Inr v\<close> for the value \<open>v\<close>.
\<close>

datatype py_exn = PyException ustr

fun str_of :: "py_exn \<Rightarrow> ustr" where
  "str_of (PyException msg) = msg"

section \<open>The standard library's \<open>html.unescape\<close>\<close>

text \<open>
  Both normalizers call \<open>html.unescape\<close>. It is modelled after the library's source:
  \<^verbatim>\<open>
  _charref = re.compile(r'&(#[0-9]+;?' r'|#[xX][0-9a-fA-F]+;?' r'|[^\t\n\f <&#;]{1,32};?)')
  def unescape(s):
      if '&' not in s:
          return s
      return _charref.sub(_replace_charref, s)
  \<close>
  The table of named references \<open>html.entities.html5\<close> (2231 entries) is a parameter, a
  dictionary from names to strings. The replacement function converts a decimal reference
  with \<open>int\<close>, which raises \<open>ValueError\<close> for a string of more than
  \<open>sys.int_info.default_max_str_digits\<close> = 4300 digits (leading zeros count); the exception
  leaves \<open>re.sub\<close> and \<open>unescape\<close>. A hexadecimal reference has no such limit.
\<close>

type_synonym entities = "ustr \<rightharpoonup> ustr"

definition is_digit :: "nat \<Rightarrow> bool" where
  "is_digit c = (48 \<le> c \<and> c \<le> 57)"

definition is_hexdigit :: "nat \<Rightarrow> bool" where
  "is_hexdigit c = (is_digit c \<or> (97 \<le> c \<and> c \<le> 102) \<or> (65 \<le> c \<and> c \<le> 70))"

text \<open>The class \<open>[^\t\n\f <&#;]\<close>.\<close>

definition is_name_char :: "nat \<Rightarrow> bool" where
  "is_name_char c = (c \<noteq> 9 \<and> c \<noteq> 10 \<and> c \<noteq> 12 \<and> c \<noteq> 32 \<and> c \<noteq> 60 \<and> c \<noteq> 38 \<and> c \<noteq> 35 \<and> c \<noteq> 59)"

fun opt_semicolon :: "ustr \<Rightarrow> ustr \<times> ustr" where
  "opt_semicolon [] = ([], [])"
| "opt_semicolon (c # cs) = (if c = 59 then ([59], cs) else ([], c # cs))"

text \<open>
  The group of \<open>_charref\<close> matched right after an ampersand, with the rest of the input
  behind the match; \<open>None\<close> when no alternative matches there.
\<close>

fun match_charref :: "ustr \<Rightarrow> (ustr \<times> ustr) option" where
  "match_charref [] = None"
| "match_charref (c # cs) =
     (if c = 35 then
        (if takeWhile is_digit cs \<noteq> [] then
           (case opt_semicolon (dropWhile is_digit cs) of
              (sc, r) \<Rightarrow> Some (35 # takeWhile is_digit cs @ sc, r))
         else
           (case cs of
              [] \<Rightarrow> None
            | x # hs \<Rightarrow>
                if (x = 120 \<or> x = 88) \<and> takeWhile is_hexdigit hs \<noteq> [] then
                  (case opt_semicolon (dropWhile is_hexdigit hs) of
                     (sc, r) \<Rightarrow> Some (35 # x # takeWhile is_hexdigit hs @ sc, r))
                else None))
      else
        (let nm = take 32 (takeWhile is_name_char (c # cs)) in
         if nm = [] then None
         else (case opt_semicolon (drop (length nm) (c # cs)) of
                 (sc, r) \<Rightarrow> Some (nm @ sc, r))))"

definition digit_value :: "nat \<Rightarrow> nat" where
  "digit_value c = (if is_digit c then c - 48 else if 97 \<le> c then c - 87 else c - 55)"

definition int_of :: "nat \<Rightarrow> ustr \<Rightarrow> nat" where
  "int_of base ds = foldl (\<lambda>n d. n * base + digit_value d) 0 ds"

text \<open>\<open>str(n)\<close> for a natural number.\<close>

function decimal :: "nat \<Rightarrow> ustr" where
  "decimal n = (if n < 10 then [48 + n] else decimal (n div 10) @ [48 + n mod 10])"
  by pat_completeness auto
termination
  by (relation "measure (\<lambda>n. n)") auto

text \<open>\<open>int(ds)\<close> for a string of decimal digits, with the limit of the interpreter.\<close>

definition max_str_digits :: nat where
  "max_str_digits = 4300"

definition int_limit_error :: "nat \<Rightarrow> py_exn" where
  "int_limit_error n = PyException
     (u ''Exceeds the limit (4300 digits) for integer string conversion: value has ''
      @ decimal n @ u '' digits; use sys.set_int_max_str_digits() to increase the limit'')"

definition py_int :: "ustr \<Rightarrow> py_exn + nat" where
  "py_int ds =
     (if length ds > max_str_digits then Inl (int_limit_error (length ds))
      else Inr (int_of 10 ds))"

text \<open>\<open>s.rstrip(';')\<close>.\<close>

fun rstrip_semicolon :: "ustr \<Rightarrow> ustr" where
  "rstrip_semicolon [] = []"
| "rstrip_semicolon (c # cs) =
     (case rstrip_semicolon cs of
        [] \<Rightarrow> if c = 59 then [] else [c]
      | r # rs \<Rightarrow> c # r # rs)"

definition invalid_charrefs :: "nat \<rightharpoonup> ustr" where
  "invalid_charrefs = map_of
     [(0, [65533]), (13, [13]), (128, [8364]), (129, [129]), (130, [8218]), (131, [402]),
      (132, [8222]), (133, [8230]), (134, [8224]), (135, [8225]), (136, [710]), (137, [8240]),
      (138, [352]), (139, [8249]), (140, [338]), (141, [141]), (142, [381]), (143, [143]),
      (144, [144]), (145, [8216]), (146, [8217]), (147, [8220]), (148, [8221]), (149, [8226]),
      (150, [8211]), (151, [8212]), (152, [732]), (153, [8482]), (154, [353]), (155, [8250]),
      (156, [339]), (157, [157]), (158, [382]), (159, [376])]"

definition invalid_codepoint :: "nat \<Rightarrow> bool" where
  "invalid_codepoint n = ((1 \<le> n \<and> n \<le> 8) \<or> (14 \<le> n \<and> n \<le> 31) \<or> (127 \<le> n \<and> n \<le> 159)
     \<or> (64976 \<le> n \<and> n \<le> 65007) \<or> n = 11 \<or> (n \<le> 1114111 \<and> 65534 \<le> n mod 65536))"

text \<open>\<open>for x in range(len(s)-1, 1, -1)\<close>: the longest proper prefix of at least two characters that is a name.\<close>

function longest_name :: "entities \<Rightarrow> ustr \<Rightarrow> nat \<Rightarrow> ustr" where
  "longest_name html5 s x =
     (if x \<le> 1 then 38 # s
      else (case html5 (take x s) of
              Some r \<Rightarrow> r @ drop x s
            | None \<Rightarrow> longest_name html5 s (x - 1)))"
  by pat_completeness auto
termination
  by (relation "measure (\<lambda>(html5, s, x). x)") auto

text \<open>The character that a numeric reference of value \<open>num\<close> stands for.\<close>

definition numeric_charref :: "nat \<Rightarrow> ustr" where
  "numeric_charref num =
     (case invalid_charrefs num of
        Some r \<Rightarrow> r
      | None \<Rightarrow>
          if (55296 \<le> num \<and> num \<le> 57343) \<or> num > 1114111 then [65533]
          else if invalid_codepoint num then []
          else [num])"

fun replace_charref :: "entities \<Rightarrow> ustr \<Rightarrow> py_exn + ustr" where
  "replace_charref html5 [] = Inr []"
| "replace_charref html5 (c # cs) =
     (if c = 35 then
        (if cs \<noteq> [] \<and> (hd cs = 120 \<or> hd cs = 88)
         then Inr (numeric_charref (int_of 16 (rstrip_semicolon (tl cs))))
         else (case py_int (rstrip_semicolon cs) of
                 Inl e \<Rightarrow> Inl e
               | Inr num \<Rightarrow> Inr (numeric_charref num)))
      else
        (case html5 (c # cs) of
           Some r \<Rightarrow> Inr r
         | None \<Rightarrow> Inr (longest_name html5 (c # cs) (length (c # cs) - 1))))"

text \<open>
  \<open>_charref.sub(_replace_charref, s)\<close>: the matches are replaced from left to right, and
  the first exception of the replacement function ends the substitution.
\<close>

function charref_sub :: "entities \<Rightarrow> ustr \<Rightarrow> py_exn + ustr" where
  "charref_sub html5 [] = Inr []"
| "charref_sub html5 (c # cs) =
     (if c = 38 then
        (case match_charref cs of
           Some (g, rest) \<Rightarrow>
             (case replace_charref html5 g of
                Inl e \<Rightarrow> Inl e
              | Inr r \<Rightarrow> map_sum id (\<lambda>t. r @ t) (charref_sub html5 rest))
         | None \<Rightarrow> map_sum id (\<lambda>t. 38 # t) (charref_sub html5 cs))
      else map_sum id (\<lambda>t. c # t) (charref_sub html5 cs))"
  by pat_completeness auto
termination
proof (relation "measure (\<lambda>(html5, s). length s)")
  show "wf (measure (\<lambda>(html5 :: entities, s :: ustr). length s))"
    by simp
next
  fix html5 :: entities and c :: nat and cs :: ustr and x2 :: "ustr \<times> ustr" and g rest :: ustr
  assume m: "match_charref cs = Some x2" and x2: "(g, rest) = x2"
  have semi: "\<And>t sc r. opt_semicolon t = (sc, r) \<Longrightarrow> length r \<le> length t"
  proof -
    fix t sc r
    assume "opt_semicolon t = (sc, r)"
    then show "length r \<le> length t"
      by (cases t) (auto split: if_splits)
  qed
  have "length rest \<le> length cs"
  proof (cases cs)
    case Nil
    with m show ?thesis by simp
  next
    case (Cons d ds)
    show ?thesis
    proof (cases "d = 35")
      case True
      show ?thesis
      proof (cases "takeWhile is_digit ds \<noteq> []")
        case True
        obtain sc r where o: "opt_semicolon (dropWhile is_digit ds) = (sc, r)"
          by (cases "opt_semicolon (dropWhile is_digit ds)")
        from m x2 Cons \<open>d = 35\<close> True o have "rest = r" by auto
        moreover have "length r \<le> length (dropWhile is_digit ds)" using semi [OF o] .
        moreover have "length (dropWhile is_digit ds) \<le> length ds" by (rule length_dropWhile_le)
        ultimately show ?thesis using Cons by simp
      next
        case False
        show ?thesis
        proof (cases ds)
          case Nil
          with m Cons \<open>d = 35\<close> False show ?thesis by simp
        next
          case (Cons x hs)
          obtain sc r where o: "opt_semicolon (dropWhile is_hexdigit hs) = (sc, r)"
            by (cases "opt_semicolon (dropWhile is_hexdigit hs)")
          from m x2 \<open>cs = d # ds\<close> \<open>d = 35\<close> False Cons o have "rest = r"
            by (auto split: if_splits)
          moreover have "length r \<le> length (dropWhile is_hexdigit hs)" using semi [OF o] .
          moreover have "length (dropWhile is_hexdigit hs) \<le> length hs" by (rule length_dropWhile_le)
          ultimately show ?thesis using Cons \<open>cs = d # ds\<close> by simp
        qed
      qed
    next
      case False
      define nm where "nm = take 32 (takeWhile is_name_char (d # ds))"
      obtain sc r where o: "opt_semicolon (drop (length nm) (d # ds)) = (sc, r)"
        by (cases "opt_semicolon (drop (length nm) (d # ds))")
      from m x2 Cons False o have "rest = r"
        by (auto simp: nm_def Let_def split: if_splits)
      moreover have "length r \<le> length (drop (length nm) (d # ds))" using semi [OF o] .
      ultimately show ?thesis using Cons by simp
    qed
  qed
  then show "((html5, rest), (html5, c # cs)) \<in> measure (\<lambda>(html5 :: entities, s :: ustr). length s)"
    by simp
next
  fix html5 :: entities and c :: nat and cs :: ustr
  show "((html5, cs), (html5, c # cs)) \<in> measure (\<lambda>(html5 :: entities, s :: ustr). length s)"
    by simp
next
  fix html5 :: entities and c :: nat and cs :: ustr
  show "((html5, cs), (html5, c # cs)) \<in> measure (\<lambda>(html5 :: entities, s :: ustr). length s)"
    by simp
qed

definition unescape :: "entities \<Rightarrow> ustr \<Rightarrow> py_exn + ustr" where
  "unescape html5 s = (if 38 \<notin> set s then Inr s else charref_sub html5 s)"

text \<open>
  The entries of \<open>html.entities.html5\<close> for the five references of XML and the no-break
  space, each with and without its semicolon as the table has them; a table to run the
  normalizers on concrete input.
\<close>

definition html5_core :: entities where
  "html5_core = map_of
     [(u ''amp;'', [38]), (u ''amp'', [38]), (u ''lt;'', [60]), (u ''lt'', [60]),
      (u ''gt;'', [62]), (u ''gt'', [62]), (u ''quot;'', [34]), (u ''quot'', [34]),
      (u ''apos;'', [39]), (u ''nbsp;'', [160]), (u ''nbsp'', [160])]"

section \<open>Text normalizer: \<open>clean_text_final\<close>\<close>

text \<open>\<open>RE_CLEAN.sub("", text)\<close>: the pattern \<open>RE_CLEAN\<close> is the class of U+200B..U+200D and U+FEFF.\<close>

definition is_zero_width :: "nat \<Rightarrow> bool" where
  "is_zero_width c = ((8203 \<le> c \<and> c \<le> 8205) \<or> c = 65279)"

definition RE_CLEAN_sub :: "ustr \<Rightarrow> ustr" where
  "RE_CLEAN_sub s = filter (\<lambda>c. \<not> is_zero_width c) s"

text \<open>
  \<open>RE_KEEP\<close> is the negated class of \<open>a-z\<close>, \<open>A-Z\<close>, U+0E01..U+0E2E, U+0E30..U+0E4C
  (the source writes the two Thai ranges with their characters), \<open>0-9\<close>, the period and
  \<open>\s\<close>; \<open>RE_KEEP.sub(" ", text)\<close> puts a space for every character outside the class.
\<close>

definition is_ascii_letter :: "nat \<Rightarrow> bool" where
  "is_ascii_letter c = ((97 \<le> c \<and> c \<le> 122) \<or> (65 \<le> c \<and> c \<le> 90))"

definition is_thai :: "nat \<Rightarrow> bool" where
  "is_thai c = ((3585 \<le> c \<and> c \<le> 3630) \<or> (3632 \<le> c \<and> c \<le> 3660))"

definition kept :: "nat \<Rightarrow> bool" where
  "kept c = (is_ascii_letter c \<or> is_thai c \<or> is_digit c \<or> c = 46 \<or> isspace c)"

definition RE_KEEP_sub :: "ustr \<Rightarrow> ustr" where
  "RE_KEEP_sub s = map (\<lambda>c. if kept c then c else 32) s"

text \<open>\<open>JUNK_KEYWORDS\<close>: seven Thai keywords (lottery, horoscope, advertisement, read more, click, home page, menu) and \<open>Login\<close>.\<close>

definition JUNK_KEYWORDS :: "ustr list" where
  "JUNK_KEYWORDS =
     [[3627, 3623, 3618], [3604, 3623, 3591], [3650, 3590, 3625, 3603, 3634],
      [3629, 3656, 3634, 3609, 3605, 3656, 3629], [3588, 3621, 3636, 3585],
      [3627, 3609, 3657, 3634, 3649, 3619, 3585], [3648, 3617, 3609, 3641], u ''Login'']"

text \<open>\<open>any(j in ln for j in JUNK_KEYWORDS)\<close>.\<close>

definition any_junk :: "ustr \<Rightarrow> bool" where
  "any_junk ln = list_ex (\<lambda>j. contains j ln) JUNK_KEYWORDS"

text \<open>
  The loop of the universal variant over \<open>text.splitlines()\<close>, \<open>lines\<close> being the list it
  appends to:
  \<^verbatim>\<open>
  for ln in text.splitlines():
      ln = ln.strip()
      if len(ln) < 40 and any(j in ln for j in JUNK_KEYWORDS): continue
      if ln: lines.append(ln)
  \<close>
\<close>

fun filter_lines :: "ustr list \<Rightarrow> ustr list \<Rightarrow> ustr list" where
  "filter_lines lines [] = lines"
| "filter_lines lines (ln # rest) =
     (let ln = strip ln in
      if length ln < 40 \<and> any_junk ln then filter_lines lines rest
      else if ln \<noteq> [] then filter_lines (lines @ [ln]) rest
      else filter_lines lines rest)"

text \<open>
  The universal variant (\<open>Linguist_Assistant/linguist_assistant/app.py\<close>). The only call
  that may raise is \<open>html.unescape\<close>.
\<close>

definition clean_text_final_univ :: "entities \<Rightarrow> ustr \<Rightarrow> py_exn + ustr" where
  "clean_text_final_univ html5 text =
     (if text = [] then Inr []
      else
        (let lines = filter_lines [] (splitlines text);
             text = join [10] lines
         in case unescape html5 text of
              Inl e \<Rightarrow> Inl e
            | Inr text \<Rightarrow>
                (let text = RE_CLEAN_sub text;
                     text = RE_KEEP_sub text
                 in Inr (strip (collapse_ws text)))))"

text \<open>The simpler variant (\<open>app.py\<close>): no line filter and no allow-list.\<close>

definition clean_text_final_simple :: "entities \<Rightarrow> ustr \<Rightarrow> py_exn + ustr" where
  "clean_text_final_simple html5 text =
     (if text = [] then Inr []
      else
        (let text = RE_CLEAN_sub text
         in case unescape html5 text of
              Inl e \<Rightarrow> Inl e
            | Inr text \<Rightarrow> Inr (strip (collapse_ws text))))"

section \<open>Parsed documents\<close>

text \<open>
  The tree that \<open>BeautifulSoup(res.content, 'html.parser')\<close> builds: tags with a name, a
  dictionary of attributes and a list of children, and strings. The value of a
  multi-valued attribute (\<open>class\<close>) is the list of its whitespace-separated items, any other
  value is a string. The document itself is a tag named \<open>[document]\<close>.

  A string of the tree is an instance of \<open>NavigableString\<close> or of one of its subclasses,
  and \<open>get_text\<close> chooses the strings by their class. \<open>PlainString\<close> stands for the class
  \<open>NavigableString\<close> itself; the parser gives the text inside \<open>script\<close>, \<open>style\<close>,
  \<open>template\<close>, \<open>rt\<close> and \<open>rp\<close> the classes \<open>Script\<close>, \<open>Stylesheet\<close>,
  \<open>TemplateString\<close>, \<open>RubyTextString\<close> and \<open>RubyParenthesisString\<close>; \<open>Declaration\<close> stands
  for declarations, doctypes and processing instructions alike.
\<close>

datatype attr_value = AttrStr ustr | AttrList "ustr list"

datatype string_class =
  PlainString | CData | Comment | Declaration | Script | Stylesheet | TemplateString
  | RubyTextString | RubyParenthesisString

datatype html =
  NavigableString string_class ustr
  | Tag ustr "(ustr \<times> attr_value) list" "html list"

fun contents :: "html \<Rightarrow> html list" where
  "contents (NavigableString k s) = []"
| "contents (Tag n a cs) = cs"

text \<open>
  How the library matches the value of an attribute against the string of a search: a
  missing attribute matches only the empty string, a string matches when equal, a list
  when one of its items is equal or the items joined by spaces are.
\<close>

fun attr_matches :: "attr_value option \<Rightarrow> ustr \<Rightarrow> bool" where
  "attr_matches None v = (v = [])"
| "attr_matches (Some (AttrStr s)) v = (s = v)"
| "attr_matches (Some (AttrList items)) v = (v \<in> set items \<or> join [32] items = v)"

text \<open>
  A node passes the search \<open>(names, {k: v})\<close> when it is a tag, its name is one of \<open>names\<close>
  and its attribute \<open>k\<close> matches \<open>v\<close>. Every dictionary of \<open>targets\<close> has one entry, so it is
  the pair \<open>(k, v)\<close>.
\<close>

fun search_tag :: "ustr list \<Rightarrow> ustr \<times> ustr \<Rightarrow> html \<Rightarrow> bool" where
  "search_tag names (k, v) (NavigableString c s) = False"
| "search_tag names (k, v) (Tag n a cs) = (n \<in> set names \<and> attr_matches (map_of a k) v)"

text \<open>The first node in document order (a tag before its descendants) that passes.\<close>

fun find_first :: "(html \<Rightarrow> bool) \<Rightarrow> html list \<Rightarrow> html option" where
  "find_first P [] = None"
| "find_first P (NavigableString k s # rest) = find_first P rest"
| "find_first P (Tag n a cs # rest) =
     (if P (Tag n a cs) then Some (Tag n a cs)
      else (case find_first P cs of
              Some r \<Rightarrow> Some r
            | None \<Rightarrow> find_first P rest))"

text \<open>\<open>soup.find(names, attrs)\<close>: the search runs over the descendants of \<open>soup\<close>.\<close>

definition soup_find :: "ustr list \<Rightarrow> ustr \<times> ustr \<Rightarrow> html \<Rightarrow> html option" where
  "soup_find names attrs soup = find_first (search_tag names attrs) (contents soup)"

text \<open>
  \<open>for tag in node(names): tag.decompose()\<close>: \<open>node(names)\<close> is \<open>node.find_all(names)\<close>, the
  descendants whose tag name is one of \<open>names\<close>; each is removed with its subtree.
\<close>

fun decompose_all :: "ustr list \<Rightarrow> html list \<Rightarrow> html list" where
  "decompose_all names [] = []"
| "decompose_all names (NavigableString k s # rest) =
     NavigableString k s # decompose_all names rest"
| "decompose_all names (Tag n a cs # rest) =
     (if n \<in> set names then decompose_all names rest
      else Tag n a (decompose_all names cs) # decompose_all names rest)"

fun decompose_in :: "ustr list \<Rightarrow> html \<Rightarrow> html" where
  "decompose_in names (NavigableString k s) = NavigableString k s"
| "decompose_in names (Tag n a cs) = Tag n a (decompose_all names cs)"

text \<open>
  \<open>node.get_text(separator=sep)\<close> joins the strings below \<open>node\<close>, in document order,
  whose class is one of the interesting string types of \<open>node\<close>: the class that the
  parser gives to the text of such a tag when \<open>node\<close> is a \<open>script\<close>, \<open>style\<close>,
  \<open>template\<close>, \<open>rt\<close> or \<open>rp\<close> tag, and \<open>NavigableString\<close> and \<open>CData\<close> for every other tag
  and for the document. The class is compared, not tested with \<open>isinstance\<close>, so comments
  and the text inside a \<open>script\<close> or \<open>template\<close> tag are not part of the text of an
  enclosing \<open>div\<close>.
\<close>

definition interesting_string_types :: "ustr \<Rightarrow> string_class list" where
  "interesting_string_types n =
     (if n = u ''rt'' then [RubyTextString]
      else if n = u ''rp'' then [RubyParenthesisString]
      else if n = u ''style'' then [Stylesheet]
      else if n = u ''script'' then [Script]
      else if n = u ''template'' then [TemplateString]
      else [PlainString, CData])"

fun all_strings :: "string_class list \<Rightarrow> html list \<Rightarrow> ustr list" where
  "all_strings types [] = []"
| "all_strings types (NavigableString k s # rest) =
     (if k \<in> set types then s # all_strings types rest else all_strings types rest)"
| "all_strings types (Tag n a cs # rest) = all_strings types cs @ all_strings types rest"

fun get_text :: "ustr \<Rightarrow> html \<Rightarrow> ustr" where
  "get_text sep (NavigableString k s) = s"
| "get_text sep (Tag n a cs) = join sep (all_strings (interesting_string_types n) cs)"

section \<open>Content extractor: \<open>get_content_universal\<close>\<close>

text \<open>
  The libraries the extractor calls are its environment; an exception of a library is a
  value of \<open>py_exn\<close>.
  \<open>requests_get\<close> is \<open>requests.get(url, headers=headers, timeout=12)\<close>; a response carries what
  its \<open>raise_for_status()\<close> raises, if anything, and its body \<open>res.content\<close>.
  \<open>BeautifulSoup\<close> is the parse of a body, \<open>trafilatura_extract\<close> is
  \<open>trafilatura.extract(res.content, include_comments=False, favor_precision=True)\<close>, a string
  or \<open>None\<close>. The assignment \<open>res.encoding = res.apparent_encoding\<close> does not change
  \<open>res.content\<close> and has no part in the model.
\<close>

record response =
  raise_for_status :: "py_exn option"
  content :: "nat list"

record web =
  requests_get :: "ustr \<Rightarrow> py_exn + response"
  BeautifulSoup :: "nat list \<Rightarrow> py_exn + html"
  TRAFILATURA_AVAILABLE :: bool
  trafilatura_extract :: "nat list \<Rightarrow> py_exn + ustr option"

text \<open>The loop \<open>for attrs in targets: node = soup.find(names, attrs); if node: return ...\<close>.\<close>

fun first_target :: "ustr list \<Rightarrow> (ustr \<times> ustr) list \<Rightarrow> html \<Rightarrow> html option" where
  "first_target names [] soup = None"
| "first_target names (attrs # targets) soup =
     (case soup_find names attrs soup of
        Some node \<Rightarrow> Some node
      | None \<Rightarrow> first_target names targets soup)"

subsection \<open>The universal variant\<close>

definition targets_univ :: "(ustr \<times> ustr) list" where
  "targets_univ =
     [(u ''class'', u ''EntryReaderInner''), (u ''id'', u ''EntryReader_0''),
      (u ''class'', u ''article-body''), (u ''itemprop'', u ''articleBody''),
      (u ''class'', u ''content-detail''), (u ''class'', u ''news-detail''),
      (u ''class'', u ''story-body''), (u ''role'', u ''main'')]"

definition names_univ :: "ustr list" where
  "names_univ = [u ''div'', u ''article'', u ''section'']"

definition junk_univ :: "ustr list" where
  "junk_univ = [u ''script'', u ''style'', u ''div.ads'', u ''div.related'']"

definition denylist_univ :: "ustr list" where
  "denylist_univ =
     [u ''script'', u ''style'', u ''nav'', u ''footer'', u ''header'', u ''aside'', u ''button'',
      u ''form'', u ''iframe'']"

text \<open>The body of the \<open>try\<close> statement; \<open>Inl e\<close> when a call raises \<open>e\<close>.\<close>

definition try_body_univ :: "web \<Rightarrow> entities \<Rightarrow> ustr \<Rightarrow> py_exn + (ustr \<times> ustr)" where
  "try_body_univ env html5 url =
     (case requests_get env url of
        Inl e \<Rightarrow> Inl e
      | Inr res \<Rightarrow>
          (case raise_for_status res of
             Some e \<Rightarrow> Inl e
           | None \<Rightarrow>
               (case BeautifulSoup env (content res) of
                  Inl e \<Rightarrow> Inl e
                | Inr soup \<Rightarrow>
                    (case first_target names_univ targets_univ soup of
                       Some node \<Rightarrow>
                         (case clean_text_final_univ html5
                                 (get_text [10] (decompose_in junk_univ node)) of
                            Inl e \<Rightarrow> Inl e
                          | Inr cleaned \<Rightarrow> Inr (cleaned, u ''Sniper (Targeted)''))
                     | None \<Rightarrow>
                         (case (if TRAFILATURA_AVAILABLE env
                                then trafilatura_extract env (content res)
                                else Inr None) of
                            Inl e \<Rightarrow> Inl e
                          | Inr extracted \<Rightarrow>
                              (case extracted of
                                 Some (c # cs) \<Rightarrow>
                                   (case clean_text_final_univ html5 (c # cs) of
                                      Inl e \<Rightarrow> Inl e
                                    | Inr cleaned \<Rightarrow> Inr (cleaned, u ''AI (Trafilatura)''))
                               | _ \<Rightarrow>
                                   (case clean_text_final_univ html5
                                           (get_text [10] (decompose_in denylist_univ soup)) of
                                      Inl e \<Rightarrow> Inl e
                                    | Inr cleaned \<Rightarrow> Inr (cleaned, u ''Fallback (Sweep)''))))))))"

text \<open>\<open>except Exception as e: return "", f"Error: {str(e)}"\<close>.\<close>

definition get_content_universal_univ :: "web \<Rightarrow> entities \<Rightarrow> ustr \<Rightarrow> ustr \<times> ustr" where
  "get_content_universal_univ env html5 url =
     (case try_body_univ env html5 url of
        Inl e \<Rightarrow> ([], u ''Error: '' @ str_of e)
      | Inr r \<Rightarrow> r)"

subsection \<open>The simpler variant\<close>

definition targets_simple :: "(ustr \<times> ustr) list" where
  "targets_simple =
     [(u ''class'', u ''EntryReaderInner''), (u ''id'', u ''EntryReader_0''),
      (u ''class'', u ''article-body''), (u ''itemprop'', u ''articleBody''),
      (u ''class'', u ''content-detail''), (u ''class'', u ''news-detail''),
      (u ''class'', u ''story-body''), (u ''class'', u ''article-content''),
      (u ''role'', u ''main'')]"

definition names_simple :: "ustr list" where
  "names_simple = [u ''div'', u ''article'', u ''section'', u ''main'']"

definition denylist_simple :: "ustr list" where
  "denylist_simple =
     [u ''script'', u ''style'', u ''nav'', u ''footer'', u ''header'', u ''aside'', u ''button'',
      u ''form'', u ''iframe'', u ''noscript'']"

text \<open>
  The simpler variant removes the denylisted tags from the whole document first, returns
  the text alone, and answers the empty string for an exception and for a sweep of at most
  100 characters. The calls of \<open>clean_text_final\<close> stand inside the \<open>try\<close> statement in
  both variants.
\<close>

definition try_body_simple :: "web \<Rightarrow> entities \<Rightarrow> ustr \<Rightarrow> py_exn + ustr" where
  "try_body_simple env html5 url =
     (case requests_get env url of
        Inl e \<Rightarrow> Inl e
      | Inr res \<Rightarrow>
          (case raise_for_status res of
             Some e \<Rightarrow> Inl e
           | None \<Rightarrow>
               (case BeautifulSoup env (content res) of
                  Inl e \<Rightarrow> Inl e
                | Inr soup0 \<Rightarrow>
                    (let soup = decompose_in denylist_simple soup0 in
                     case first_target names_simple targets_simple soup of
                       Some node \<Rightarrow> clean_text_final_simple html5 (get_text [10] node)
                     | None \<Rightarrow>
                         (let raw_text = get_text [10] soup in
                          case clean_text_final_simple html5 raw_text of
                            Inl e \<Rightarrow> Inl e
                          | Inr cleaned \<Rightarrow>
                              if length cleaned > 100 then Inr cleaned else Inr [])))))"

definition get_content_universal_simple :: "web \<Rightarrow> entities \<Rightarrow> ustr \<Rightarrow> ustr" where
  "get_content_universal_simple env html5 url =
     (case try_body_simple env html5 url of
        Inl e \<Rightarrow> []
      | Inr r \<Rightarrow> r)"

section \<open>Tokenizer adapter: \<open>tokenize_text\<close>\<close>

text \<open>
  A segmentation engine (\<open>deepcut\<close>, \<open>attacut\<close>) keeps a session, so a call takes the state of
  the engine and returns the new one, with the tokens or the exception it raised.
  \<open>reload\<close> is the recovery of the universal variant: \<open>tf.keras.backend.clear_session()\<close>
  and \<open>importlib.reload(dc)\<close>, which may raise as well.
\<close>

record 's engine =
  tokenize :: "'s \<Rightarrow> ustr \<Rightarrow> (py_exn + ustr list) \<times> 's"
  reload :: "'s \<Rightarrow> py_exn option \<times> 's"

text \<open>The universal variant: \<open>deepcut\<close>, one reload and retry, then \<open>text.split()\<close>.\<close>

definition tokenize_text_univ :: "bool \<Rightarrow> 's engine \<Rightarrow> 's \<Rightarrow> ustr \<Rightarrow> ustr list \<times> 's" where
  "tokenize_text_univ DEEPCUT_AVAILABLE deepcut st text =
     (if \<not> DEEPCUT_AVAILABLE \<or> text = [] then ((if text \<noteq> [] then split text else []), st)
      else
        (case tokenize deepcut st text of
           (Inr tokens, st1) \<Rightarrow> (tokens, st1)
         | (Inl e1, st1) \<Rightarrow>
             (case reload deepcut st1 of
                (Some e2, st2) \<Rightarrow> (split text, st2)
              | (None, st2) \<Rightarrow>
                  (case tokenize deepcut st2 text of
                     (Inr tokens, st3) \<Rightarrow> (tokens, st3)
                   | (Inl e2, st3) \<Rightarrow> (split text, st3)))))"

text \<open>The simpler variant: \<open>attacut\<close> if installed, else \<open>deepcut\<close> if installed, else \<open>text.split()\<close>; an exception of the engine goes to \<open>text.split()\<close>.\<close>

definition tokenize_text_simple ::
  "bool \<Rightarrow> bool \<Rightarrow> 's engine \<Rightarrow> 's engine \<Rightarrow> 's \<Rightarrow> ustr \<Rightarrow> ustr list \<times> 's" where
  "tokenize_text_simple ATTACUT_AVAILABLE DEEPCUT_AVAILABLE attacut deepcut st text =
     (if text = [] then ([], st)
      else if ATTACUT_AVAILABLE then
        (case tokenize attacut st text of
           (Inr tokens, st1) \<Rightarrow> (tokens, st1)
         | (Inl e, st1) \<Rightarrow> (split text, st1))
      else if DEEPCUT_AVAILABLE then
        (case tokenize deepcut st text of
           (Inr tokens, st1) \<Rightarrow> (tokens, st1)
         | (Inl e, st1) \<Rightarrow> (split text, st1))
      else (split text, st))"

section \<open>Concrete inputs\<close>

text \<open>
  Inputs on which the definitions above are run: a segmentation engine whose every call
  raises (its state counts the calls), a site that answers every request with one parsed
  page and has no \<open>trafilatura\<close>, a site whose requests time out, and some pages.
\<close>

definition failing_engine :: "nat engine" where
  "failing_engine =
     \<lparr>tokenize = (\<lambda>st text. (Inl (PyException (u ''session corrupted'')), Suc st)),
      reload = (\<lambda>st. (None, st))\<rparr>"

definition ok_response :: response where
  "ok_response = \<lparr>raise_for_status = None, content = []\<rparr>"

definition web_of :: "html \<Rightarrow> web" where
  "web_of soup =
     \<lparr>requests_get = (\<lambda>url. Inr ok_response),
      BeautifulSoup = (\<lambda>body. Inr soup),
      TRAFILATURA_AVAILABLE = False,
      trafilatura_extract = (\<lambda>body. Inr None)\<rparr>"

definition web_timeout :: web where
  "web_timeout =
     \<lparr>requests_get = (\<lambda>url. Inl (PyException (u ''Read timed out.''))),
      BeautifulSoup = (\<lambda>body. Inr (Tag (u ''[document]'') [] [])),
      TRAFILATURA_AVAILABLE = False,
      trafilatura_extract = (\<lambda>body. Inr None)\<rparr>"

definition example_url :: ustr where
  "example_url = u ''https://example.com/news''"

text \<open>\<open><article class="article-body">Text here</article><nav>Menu</nav>\<close>\<close>

definition doc_article :: html where
  "doc_article =
     Tag (u ''[document]'') []
       [Tag (u ''article'') [(u ''class'', AttrList [u ''article-body''])]
          [NavigableString PlainString (u ''Text here'')],
        Tag (u ''nav'') [] [NavigableString PlainString (u ''Menu'')]]"

text \<open>\<open><div class="article-body"></div>\<close>\<close>

definition doc_empty_article :: html where
  "doc_empty_article =
     Tag (u ''[document]'') []
       [Tag (u ''div'') [(u ''class'', AttrList [u ''article-body''])] []]"

text \<open>\<open><p>Hello</p>\<close>\<close>

definition doc_hello :: html where
  "doc_hello =
     Tag (u ''[document]'') [] [Tag (u ''p'') [] [NavigableString PlainString (u ''Hello'')]]"

text \<open>\<open><form><div class="article-body">Hello</div></form>\<close>\<close>

definition doc_form :: html where
  "doc_form =
     Tag (u ''[document]'') []
       [Tag (u ''form'') []
          [Tag (u ''div'') [(u ''class'', AttrList [u ''article-body''])]
             [NavigableString PlainString (u ''Hello'')]]]"

text \<open>\<open><div class="article-body">Text<script>x</script><div class="ads">BUY NOW</div></div>\<close>\<close>

definition doc_ads :: html where
  "doc_ads =
     Tag (u ''[document]'') []
       [Tag (u ''div'') [(u ''class'', AttrList [u ''article-body''])]
          [NavigableString PlainString (u ''Text''),
           Tag (u ''script'') [] [NavigableString Script (u ''x'')],
           Tag (u ''div'') [(u ''class'', AttrList [u ''ads''])]
             [NavigableString PlainString (u ''BUY NOW'')]]]"

text \<open>
  \<open><div class="article-body">&amp;#0...0;</div>\<close> with 4301 zeros: the text of the div is
  a decimal reference of 4301 digits.
\<close>

definition doc_long_reference :: html where
  "doc_long_reference =
     Tag (u ''[document]'') []
       [Tag (u ''div'') [(u ''class'', AttrList [u ''article-body''])]
          [NavigableString PlainString (u ''&#'' @ replicate 4301 48 @ u '';'')]]"

section \<open>Predicates of the statements\<close>

text \<open>
  A string is single-spaced when its only whitespace characters are spaces and no space is
  followed by another whitespace character.
\<close>

fun single_spaced :: "ustr \<Rightarrow> bool" where
  "single_spaced [] = True"
| "single_spaced (c # cs) =
     ((if isspace c then c = 32 \<and> (cs = [] \<or> \<not> isspace (hd cs)) else True) \<and> single_spaced cs)"

text \<open>The characters that the allow-list of the universal variant lets through, whitespace apart.\<close>

definition plain :: "nat \<Rightarrow> bool" where
  "plain c = (is_ascii_letter c \<or> is_thai c \<or> is_digit c \<or> c = 46)"

text \<open>A line that the loop of the universal variant skips as junk.\<close>

definition junk_line :: "ustr \<Rightarrow> bool" where
  "junk_line ln = (length ln < 40 \<and> any_junk ln)"

text \<open>The nodes below a list of children, in document order: a tag stands before its descendants.\<close>

fun descendants :: "html list \<Rightarrow> html list" where
  "descendants [] = []"
| "descendants (NavigableString k s # rest) = NavigableString k s # descendants rest"
| "descendants (Tag n a cs # rest) = Tag n a cs # descendants cs @ descendants rest"

section \<open>Auxiliary facts\<close>

text \<open>The definitions that the simplifier unfolds to run the model on a concrete input.\<close>

lemmas str_ev = u_def isspace_def is_linebreak_def is_zero_width_def is_ascii_letter_def
  is_thai_def is_digit_def kept_def
lemmas clean_ev = clean_text_final_univ_def clean_text_final_simple_def splitlines_def strip_def
  any_junk_def JUNK_KEYWORDS_def unescape_def RE_CLEAN_sub_def RE_KEEP_sub_def
lemmas unescape_ev = html5_core_def is_name_char_def is_hexdigit_def py_int_def max_str_digits_def
  int_of_def digit_value_def numeric_charref_def invalid_charrefs_def invalid_codepoint_def
lemmas extract_ev = get_content_universal_univ_def try_body_univ_def
  get_content_universal_simple_def try_body_simple_def web_of_def ok_response_def
  soup_find_def targets_univ_def names_univ_def junk_univ_def denylist_univ_def
  targets_simple_def names_simple_def denylist_simple_def interesting_string_types_def

text \<open>The search of the library finds the first descendant, in document order, that passes.\<close>

lemma find_app:
  "List.find P (xs @ ys) = (case List.find P xs of None \<Rightarrow> List.find P ys | Some x \<Rightarrow> Some x)"
  by (induction xs) auto

lemma find_first_find:
  "(\<And>k s. \<not> P (NavigableString k s)) \<Longrightarrow> find_first P cs = List.find P (descendants cs)"
proof (induction P cs rule: find_first.induct)
  case (1 P)
  show ?case by simp
next
  case (2 P s rest)
  then show ?case by simp
next
  case (3 P n a cs rest)
  show ?case
  proof (cases "P (Tag n a cs)")
    case True
    then show ?thesis by simp
  next
    case False
    with 3 have a: "find_first P cs = List.find P (descendants cs)"
      and b: "find_first P cs = None \<Longrightarrow> find_first P rest = List.find P (descendants rest)"
      by simp_all
    show ?thesis
    proof (cases "List.find P (descendants cs)")
      case None
      with a have "find_first P cs = None" by simp
      with b have "find_first P rest = List.find P (descendants rest)" by simp
      with None a False show ?thesis by (simp add: find_app)
    next
      case (Some r)
      with a have "find_first P cs = Some r" by simp
      with Some False show ?thesis by (simp add: find_app)
    qed
  qed
qed

lemma soup_find_find:
  "soup_find names attrs soup = List.find (search_tag names attrs) (descendants (contents soup))"
  unfolding soup_find_def by (rule find_first_find) (cases attrs, simp)

lemma soup_find_None_iff:
  "soup_find names attrs soup = None \<longleftrightarrow>
     \<not> (\<exists>n\<in>set (descendants (contents soup)). search_tag names attrs n)"
  by (auto simp: soup_find_find find_None_iff)

text \<open>The loop over the rules.\<close>

lemma first_target_None_iff:
  "first_target names targets soup = None \<longleftrightarrow> (\<forall>a\<in>set targets. soup_find names a soup = None)"
  by (induction targets) (auto split: option.splits)

lemma first_target_first_match:
  "first_target names targets soup = Some node \<longleftrightarrow>
     (\<exists>pre attrs post. targets = pre @ attrs # post
        \<and> (\<forall>a\<in>set pre. soup_find names a soup = None)
        \<and> soup_find names attrs soup = Some node)"
proof (induction targets)
  case Nil
  show ?case by simp
next
  case (Cons x xs)
  show ?case
  proof (cases "soup_find names x soup")
    case (Some n)
    show ?thesis
    proof
      assume "first_target names (x # xs) soup = Some node"
      with Some have "n = node" by simp
      with Some have "x # xs = [] @ x # xs \<and> (\<forall>a\<in>set []. soup_find names a soup = None)
          \<and> soup_find names x soup = Some node" by simp
      then show "\<exists>pre attrs post. x # xs = pre @ attrs # post
          \<and> (\<forall>a\<in>set pre. soup_find names a soup = None)
          \<and> soup_find names attrs soup = Some node" by blast
    next
      assume "\<exists>pre attrs post. x # xs = pre @ attrs # post
          \<and> (\<forall>a\<in>set pre. soup_find names a soup = None)
          \<and> soup_find names attrs soup = Some node"
      then obtain pre attrs post where p: "x # xs = pre @ attrs # post"
          "\<forall>a\<in>set pre. soup_find names a soup = None" "soup_find names attrs soup = Some node"
        by blast
      have "pre = []"
      proof (cases pre)
        case Nil then show ?thesis .
      next
        case (Cons y ys)
        with p(1) have "y = x" by simp
        with Cons p(2) Some show ?thesis by simp
      qed
      with p(1) p(3) Some show "first_target names (x # xs) soup = Some node" by simp
    qed
  next
    case None
    have "(\<exists>pre attrs post. x # xs = pre @ attrs # post
          \<and> (\<forall>a\<in>set pre. soup_find names a soup = None)
          \<and> soup_find names attrs soup = Some node)
       \<longleftrightarrow> (\<exists>pre attrs post. xs = pre @ attrs # post
          \<and> (\<forall>a\<in>set pre. soup_find names a soup = None)
          \<and> soup_find names attrs soup = Some node)" (is "?L \<longleftrightarrow> ?R")
    proof
      assume ?L
      then obtain pre attrs post where p: "x # xs = pre @ attrs # post"
          "\<forall>a\<in>set pre. soup_find names a soup = None" "soup_find names attrs soup = Some node"
        by blast
      show ?R
      proof (cases pre)
        case Nil
        with p(1) p(3) None show ?thesis by simp
      next
        case (Cons y ys)
        with p have "xs = ys @ attrs # post \<and> (\<forall>a\<in>set ys. soup_find names a soup = None)
            \<and> soup_find names attrs soup = Some node" by simp
        then show ?thesis by blast
      qed
    next
      assume ?R
      then obtain pre attrs post where p: "xs = pre @ attrs # post"
          "\<forall>a\<in>set pre. soup_find names a soup = None" "soup_find names attrs soup = Some node"
        by blast
      with None have "x # xs = (x # pre) @ attrs # post
          \<and> (\<forall>a\<in>set (x # pre). soup_find names a soup = None)
          \<and> soup_find names attrs soup = Some node" by simp
      then show ?L by blast
    qed
    with None Cons.IH show ?thesis by simp
  qed
qed

lemma first_target_exists:
  assumes "\<exists>a\<in>set targets. soup_find names a soup \<noteq> None"
  shows "\<exists>pre attrs post node. targets = pre @ attrs # post
        \<and> (\<forall>a\<in>set pre. soup_find names a soup = None)
        \<and> soup_find names attrs soup = Some node
        \<and> first_target names targets soup = Some node"
proof -
  from assms have "first_target names targets soup \<noteq> None"
    by (simp add: first_target_None_iff)
  then obtain node where n: "first_target names targets soup = Some node" by blast
  with first_target_first_match [of names targets soup node] show ?thesis by blast
qed

lemma split_from_nonempty:
  "split_from w s \<noteq> [] \<longleftrightarrow> w \<noteq> [] \<or> (\<exists>c\<in>set s. \<not> isspace c)"
  by (induction s arbitrary: w) auto

lemma split_nonempty: "split s \<noteq> [] \<longleftrightarrow> (\<exists>c\<in>set s. \<not> isspace c)"
  by (simp add: split_def split_from_nonempty)

text \<open>Substrings, and the loop over the lines.\<close>

lemma startswith_iff: "startswith s p \<longleftrightarrow> (\<exists>r. s = p @ r)"
  by (induction s p rule: startswith.induct) auto

lemma contains_iff: "contains j s \<longleftrightarrow> (\<exists>a b. s = a @ j @ b)"
proof (induction s)
  case Nil
  show ?case by auto
next
  case (Cons c cs)
  show ?case
  proof
    assume "contains j (c # cs)"
    then consider "startswith (c # cs) j" | "contains j cs" by auto
    then show "\<exists>a b. c # cs = a @ j @ b"
    proof cases
      case 1
      then obtain r where "c # cs = j @ r" by (auto simp: startswith_iff)
      then have "c # cs = [] @ j @ r" by simp
      then show ?thesis by blast
    next
      case 2
      with Cons.IH obtain a b where "cs = a @ j @ b" by blast
      then have "c # cs = (c # a) @ j @ b" by simp
      then show ?thesis by blast
    qed
  next
    assume "\<exists>a b. c # cs = a @ j @ b"
    then obtain a b where ab: "c # cs = a @ j @ b" by blast
    show "contains j (c # cs)"
    proof (cases a)
      case Nil
      with ab have "startswith (c # cs) j" by (auto simp: startswith_iff)
      then show ?thesis by simp
    next
      case (Cons x xs)
      with ab have "cs = xs @ j @ b" by simp
      with \<open>contains j cs = (\<exists>a b. cs = a @ j @ b)\<close> have "contains j cs" by blast
      then show ?thesis by simp
    qed
  qed
qed

lemma any_junk_iff: "any_junk ln \<longleftrightarrow> (\<exists>j\<in>set JUNK_KEYWORDS. \<exists>a b. ln = a @ j @ b)"
  by (simp add: any_junk_def list_ex_iff contains_iff)

lemma filter_lines_eq:
  "filter_lines acc ls = acc @ filter (\<lambda>l. l \<noteq> [] \<and> \<not> junk_line l) (map strip ls)"
  by (induction ls arbitrary: acc) (auto simp: Let_def junk_line_def)

text \<open>What \<open>collapse_ws\<close> and \<open>strip\<close> establish, and the strings they leave alone.\<close>

lemma isspace_32: "isspace 32"
  by (simp add: isspace_def)

lemma collapse_ws_hd:
  "s \<noteq> [] \<Longrightarrow> \<not> isspace (hd s) \<Longrightarrow> collapse_ws s \<noteq> [] \<and> hd (collapse_ws s) = hd s"
  by (cases s) auto

lemma dropWhile_isspace_hd: "dropWhile isspace s = [] \<or> \<not> isspace (hd (dropWhile isspace s))"
  using hd_dropWhile [of isspace s] by blast

lemma single_spaced_collapse_ws: "single_spaced (collapse_ws s)"
proof (induction s rule: collapse_ws.induct)
  case 1
  show ?case by simp
next
  case (2 c cs)
  show ?case
  proof (cases "isspace c")
    case True
    let ?d = "dropWhile isspace cs"
    from True 2 have ih: "single_spaced (collapse_ws ?d)" by simp
    have "collapse_ws ?d = [] \<or> \<not> isspace (hd (collapse_ws ?d))"
    proof (cases "?d = []")
      case True
      have "collapse_ws [] = []" by simp
      with True have "collapse_ws ?d = []" by (simp only:)
      then show ?thesis by blast
    next
      case False
      with dropWhile_isspace_hd [of cs] have "\<not> isspace (hd ?d)" by blast
      with False collapse_ws_hd [of ?d] show ?thesis by simp
    qed
    with True ih show ?thesis by (simp add: isspace_32)
  next
    case False
    with 2 show ?thesis by simp
  qed
qed

lemma set_collapse_ws: "c \<in> set (collapse_ws s) \<Longrightarrow> c = 32 \<or> (c \<in> set s \<and> \<not> isspace c)"
proof (induction s rule: collapse_ws.induct)
  case 1
  then show ?case by simp
next
  case (2 d ds)
  show ?case
  proof (cases "isspace d")
    case True
    with 2 have "c = 32 \<or> c \<in> set (collapse_ws (dropWhile isspace ds))" by simp
    with 2 True have "c = 32 \<or> (c \<in> set (dropWhile isspace ds) \<and> \<not> isspace c)" by blast
    then show ?thesis using set_dropWhileD [of c isspace ds] by auto
  next
    case False
    with 2 show ?thesis by auto
  qed
qed

lemma single_spaced_tl: "single_spaced (c # cs) \<Longrightarrow> single_spaced cs"
  by simp

lemma single_spaced_dropWhile: "single_spaced s \<Longrightarrow> single_spaced (dropWhile P s)"
  by (induction s) auto

lemma rstrip_not_Nil: "rstrip s \<noteq> [] \<Longrightarrow> s \<noteq> []"
  by (cases s) auto

lemma rstrip_hd: "rstrip s \<noteq> [] \<Longrightarrow> hd (rstrip s) = hd s"
  by (cases s) (auto split: list.splits if_splits)

lemma single_spaced_rstrip: "single_spaced s \<Longrightarrow> single_spaced (rstrip s)"
proof (induction s)
  case Nil
  show ?case by simp
next
  case (Cons c cs)
  then have ih: "single_spaced (rstrip cs)" by simp
  show ?case
  proof (cases "rstrip cs")
    case Nil
    then show ?thesis by simp
  next
    case (Cons r rs)
    then have "rstrip cs \<noteq> []" by simp
    from rstrip_hd [OF this] Cons have "hd cs = r" by simp
    moreover from Cons have "cs \<noteq> []" by auto
    ultimately show ?thesis using Cons.prems ih Cons by auto
  qed
qed

lemma set_rstrip: "set (rstrip s) \<subseteq> set s"
  by (induction s) (auto split: list.splits if_splits)

lemma rstrip_last: "rstrip s \<noteq> [] \<Longrightarrow> \<not> isspace (last (rstrip s))"
  by (induction s) (auto split: list.splits if_splits)

lemma rstrip_id: "s \<noteq> [] \<Longrightarrow> \<not> isspace (last s) \<Longrightarrow> rstrip s = s"
  by (induction s) (auto split: list.splits if_splits)

lemma strip_props:
  "single_spaced s \<Longrightarrow> single_spaced (strip s)"
  "set (strip s) \<subseteq> set s"
  "strip s \<noteq> [] \<Longrightarrow> \<not> isspace (hd (strip s)) \<and> \<not> isspace (last (strip s))"
proof -
  show "single_spaced s \<Longrightarrow> single_spaced (strip s)"
    by (simp add: strip_def single_spaced_rstrip single_spaced_dropWhile)
  show "set (strip s) \<subseteq> set s"
    using set_rstrip [of "dropWhile isspace s"] set_dropWhileD [of _ isspace s]
    by (auto simp: strip_def)
  assume n: "strip s \<noteq> []"
  then have r: "rstrip (dropWhile isspace s) \<noteq> []" by (simp add: strip_def)
  then have "dropWhile isspace s \<noteq> []" by (rule rstrip_not_Nil)
  with dropWhile_isspace_hd [of s] have "\<not> isspace (hd (dropWhile isspace s))" by blast
  with rstrip_hd [OF r] rstrip_last [OF r]
  show "\<not> isspace (hd (strip s)) \<and> \<not> isspace (last (strip s))"
    by (simp add: strip_def)
qed

lemma strip_id: "s \<noteq> [] \<Longrightarrow> \<not> isspace (hd s) \<Longrightarrow> \<not> isspace (last s) \<Longrightarrow> strip s = s"
  by (cases s) (auto simp: strip_def rstrip_id simp del: rstrip.simps)

lemma collapse_ws_id: "single_spaced s \<Longrightarrow> collapse_ws s = s"
proof (induction s rule: collapse_ws.induct)
  case 1
  show ?case by simp
next
  case (2 c cs)
  show ?case
  proof (cases "isspace c")
    case True
    with 2(3) have c: "c = 32" and h: "cs = [] \<or> \<not> isspace (hd cs)" and s: "single_spaced cs"
      by auto
    from h have d: "dropWhile isspace cs = cs" by (cases cs) auto
    with 2(1) True s have "collapse_ws cs = cs" by simp
    with True c d show ?thesis by simp
  next
    case False
    with 2 show ?thesis by simp
  qed
qed

lemma single_spaced_nth:
  "single_spaced s \<Longrightarrow> Suc i < length s \<Longrightarrow> \<not> (isspace (s ! i) \<and> isspace (s ! Suc i))"
proof (induction s arbitrary: i)
  case Nil
  then show ?case by simp
next
  case (Cons c cs)
  show ?case
  proof (cases i)
    case 0
    with Cons.prems show ?thesis by (cases cs) (auto split: if_splits)
  next
    case (Suc k)
    with Cons show ?thesis by simp
  qed
qed

lemma splitlines_from_no_break:
  "\<forall>c\<in>set s. \<not> is_linebreak c \<Longrightarrow> splitlines_from ln s = (if ln @ s = [] then [] else [ln @ s])"
proof (induction s arbitrary: ln)
  case Nil
  show ?case by simp
next
  case (Cons c cs)
  then have "\<not> is_linebreak c" by simp
  then have "c \<noteq> 13" by (auto simp: is_linebreak_def)
  with Cons \<open>\<not> is_linebreak c\<close> show ?case by simp
qed

lemma is_linebreak_isspace: "is_linebreak c \<Longrightarrow> isspace c \<and> c \<noteq> 32"
  by (auto simp: is_linebreak_def isspace_def)

text \<open>The shape of a normalized string, and the normalized strings that normalize to themselves.\<close>

lemma plain_cases:
  "plain c \<Longrightarrow> (97 \<le> c \<and> c \<le> 122) \<or> (65 \<le> c \<and> c \<le> 90) \<or> (3585 \<le> c \<and> c \<le> 3660)
     \<or> (48 \<le> c \<and> c \<le> 57) \<or> c = 46"
  unfolding plain_def is_ascii_letter_def is_thai_def is_digit_def by arith

lemma plain_not_space: "plain c \<Longrightarrow> \<not> isspace c"
  using plain_cases [of c] unfolding isspace_def by arith

lemma plain_not_zero_width: "plain c \<Longrightarrow> \<not> is_zero_width c"
  using plain_cases [of c] unfolding is_zero_width_def by arith

lemma plain_not_amp: "plain c \<Longrightarrow> c \<noteq> 38"
  using plain_cases [of c] by arith

lemma plain_kept: "plain c \<Longrightarrow> kept c"
  unfolding plain_def kept_def by blast

lemma plain_not_linebreak: "plain c \<Longrightarrow> \<not> is_linebreak c"
  using plain_not_space [of c] is_linebreak_isspace [of c] by blast

lemma space_facts: "\<not> is_zero_width 32 \<and> kept 32 \<and> \<not> is_linebreak 32 \<and> isspace 32"
  by (simp add: kept_def isspace_def is_zero_width_def is_linebreak_def)

lemma RE_KEEP_sub_kept: "c \<in> set (RE_KEEP_sub s) \<Longrightarrow> kept c"
  using space_facts by (auto simp: RE_KEEP_sub_def)

lemma kept_not_space: "kept c \<Longrightarrow> \<not> isspace c \<Longrightarrow> plain c"
  by (auto simp: kept_def plain_def)

lemma shape_strip_collapse:
  "single_spaced (strip (collapse_ws s))"
  "strip (collapse_ws s) \<noteq> [] \<Longrightarrow>
     \<not> isspace (hd (strip (collapse_ws s))) \<and> \<not> isspace (last (strip (collapse_ws s)))"
  "c \<in> set (strip (collapse_ws s)) \<Longrightarrow> c = 32 \<or> (c \<in> set s \<and> \<not> isspace c)"
proof -
  show "single_spaced (strip (collapse_ws s))"
    by (rule strip_props(1)) (rule single_spaced_collapse_ws)
  show "strip (collapse_ws s) \<noteq> [] \<Longrightarrow>
     \<not> isspace (hd (strip (collapse_ws s))) \<and> \<not> isspace (last (strip (collapse_ws s)))"
    by (rule strip_props(3))
  assume "c \<in> set (strip (collapse_ws s))"
  with strip_props(2) [of "collapse_ws s"] have "c \<in> set (collapse_ws s)" by blast
  then show "c = 32 \<or> (c \<in> set s \<and> \<not> isspace c)" by (rule set_collapse_ws)
qed

lemma clean_univ_cases:
  "clean_text_final_univ html5 text = Inr out \<Longrightarrow>
     out = [] \<or> (\<exists>t. out = strip (collapse_ws (RE_KEEP_sub t)))"
  by (auto simp: clean_text_final_univ_def Let_def split: if_splits sum.splits)

lemma clean_simple_cases:
  "clean_text_final_simple html5 text = Inr out \<Longrightarrow>
     out = [] \<or> (\<exists>t. out = strip (collapse_ws t))"
  by (auto simp: clean_text_final_simple_def Let_def split: if_splits sum.splits)

lemma clean_univ_shape:
  assumes "clean_text_final_univ html5 text = Inr out"
  shows "single_spaced out"
    and "out \<noteq> [] \<Longrightarrow> \<not> isspace (hd out) \<and> \<not> isspace (last out)"
    and "c \<in> set out \<Longrightarrow> plain c \<or> c = 32"
proof -
  from clean_univ_cases [OF assms]
  consider "out = []" | t where "out = strip (collapse_ws (RE_KEEP_sub t))" by blast
  note cases = this
  from cases show "single_spaced out"
    by cases (simp_all add: shape_strip_collapse(1))
  from cases show "out \<noteq> [] \<Longrightarrow> \<not> isspace (hd out) \<and> \<not> isspace (last out)"
    by cases (simp_all add: shape_strip_collapse(2))
  assume c: "c \<in> set out"
  from cases show "plain c \<or> c = 32"
  proof cases
    case 1
    with c show ?thesis by simp
  next
    case 2
    with c have "c \<in> set (strip (collapse_ws (RE_KEEP_sub t)))" by simp
    from shape_strip_collapse(3) [OF this] RE_KEEP_sub_kept [of c t] kept_not_space [of c]
    show ?thesis by blast
  qed
qed

lemma clean_simple_shape:
  assumes "clean_text_final_simple html5 text = Inr out"
  shows "single_spaced out"
    and "out \<noteq> [] \<Longrightarrow> \<not> isspace (hd out) \<and> \<not> isspace (last out)"
proof -
  from clean_simple_cases [OF assms]
  consider "out = []" | t where "out = strip (collapse_ws t)" by blast
  note cases = this
  from cases show "single_spaced out"
    by cases (simp_all add: shape_strip_collapse(1))
  from cases show "out \<noteq> [] \<Longrightarrow> \<not> isspace (hd out) \<and> \<not> isspace (last out)"
    by cases (simp_all add: shape_strip_collapse(2))
qed

lemma strip_collapse_id:
  assumes "single_spaced y" and "y \<noteq> [] \<Longrightarrow> \<not> isspace (hd y) \<and> \<not> isspace (last y)"
  shows "strip (collapse_ws y) = y" and "strip y = y"
proof -
  show s: "strip y = y"
  proof (cases "y = []")
    case True
    then show ?thesis by (simp add: strip_def)
  next
    case False
    with assms(2) show ?thesis by (simp add: strip_id)
  qed
  from assms(1) have "collapse_ws y = y" by (rule collapse_ws_id)
  with s show "strip (collapse_ws y) = y" by simp
qed

lemma any_junk_Nil: "\<not> any_junk []"
  by (simp add: any_junk_def JUNK_KEYWORDS_def u_def)

lemma clean_univ_fixed:
  assumes ss: "single_spaced y"
    and ends: "y \<noteq> [] \<Longrightarrow> \<not> isspace (hd y) \<and> \<not> isspace (last y)"
    and chars: "\<And>c. c \<in> set y \<Longrightarrow> plain c \<or> c = 32"
  shows "clean_text_final_univ html5 y = Inr (if junk_line y then [] else y)"
proof (cases "y = []")
  case True
  then show ?thesis by (simp add: clean_text_final_univ_def)
next
  case False
  have nb: "\<forall>c\<in>set y. \<not> is_linebreak c"
    using chars plain_not_linebreak space_facts by blast
  from splitlines_from_no_break [OF nb, of "[]"] False
  have lines: "splitlines y = [y]" by (simp add: splitlines_def)
  have st: "strip y = y" using ss ends by (rule strip_collapse_id(2))
  show ?thesis
  proof (cases "junk_line y")
    case True
    then have "filter_lines [] (splitlines y) = []"
      by (simp add: lines filter_lines_eq st)
    with True False show ?thesis
      by (simp add: clean_text_final_univ_def Let_def unescape_def RE_CLEAN_sub_def
          RE_KEEP_sub_def strip_def)
  next
    case nj: False
    with False have fl: "filter_lines [] (splitlines y) = [y]"
      by (simp add: lines filter_lines_eq st)
    have "38 \<notin> set y"
    proof
      assume "38 \<in> set y"
      from chars [OF this] have "plain 38" by simp
      then show False using plain_not_amp [of 38] by simp
    qed
    then have un: "unescape html5 y = Inr y" by (simp add: unescape_def)
    have "\<forall>c\<in>set y. \<not> is_zero_width c"
      using chars plain_not_zero_width space_facts by blast
    then have zw: "RE_CLEAN_sub y = y"
      by (simp add: RE_CLEAN_sub_def filter_id_conv)
    have "\<forall>c\<in>set y. kept c"
      using chars plain_kept space_facts by blast
    then have kp: "RE_KEEP_sub y = y"
      by (simp add: RE_KEEP_sub_def map_idI)
    have sc: "strip (collapse_ws y) = y" using ss ends by (rule strip_collapse_id(1))
    from False nj show ?thesis
      by (simp add: clean_text_final_univ_def Let_def fl un zw kp sc)
  qed
qed

lemma clean_simple_fixed:
  assumes ss: "single_spaced y"
    and ends: "y \<noteq> [] \<Longrightarrow> \<not> isspace (hd y) \<and> \<not> isspace (last y)"
    and amp: "38 \<notin> set y" and zw: "\<forall>c\<in>set y. \<not> is_zero_width c"
  shows "clean_text_final_simple html5 y = Inr y"
proof -
  from zw have "RE_CLEAN_sub y = y" by (simp add: RE_CLEAN_sub_def filter_id_conv)
  moreover from amp have "unescape html5 y = Inr y" by (simp add: unescape_def)
  moreover have "strip (collapse_ws y) = y" using ss ends by (rule strip_collapse_id(1))
  ultimately show ?thesis by (simp add: clean_text_final_simple_def Let_def)
qed

text \<open>The normalizers raise only when \<open>html.unescape\<close> does, and return when the text has no ampersand.\<close>

lemma unescape_no_amp: "38 \<notin> set s \<Longrightarrow> unescape html5 s = Inr s"
  by (simp add: unescape_def)

lemma set_splitlines_from:
  "l \<in> set (splitlines_from ln s) \<Longrightarrow> set l \<subseteq> set ln \<union> set s"
proof (induction ln s arbitrary: l rule: splitlines_from.induct)
  case (1 ln)
  then show ?case by (auto split: if_splits)
next
  case (2 ln c cs)
  show ?case
  proof (cases "c = 13 \<and> cs \<noteq> [] \<and> hd cs = 10")
    case True
    with 2(4) have "l = ln \<or> l \<in> set (splitlines_from [] (tl cs))" by simp
    then show ?thesis
    proof
      assume "l = ln" then show ?thesis by auto
    next
      assume "l \<in> set (splitlines_from [] (tl cs))"
      with True 2(1) have "set l \<subseteq> set [] \<union> set (tl cs)" by blast
      moreover from True have "set (tl cs) \<subseteq> set cs" by (cases cs) auto
      ultimately show ?thesis by auto
    qed
  next
    case False
    show ?thesis
    proof (cases "is_linebreak c")
      case True
      with False 2(4) have "l = ln \<or> l \<in> set (splitlines_from [] cs)" by auto
      then show ?thesis
      proof
        assume "l = ln" then show ?thesis by auto
      next
        assume "l \<in> set (splitlines_from [] cs)"
        with False True 2(2) have "set l \<subseteq> set [] \<union> set cs" by blast
        then show ?thesis by auto
      qed
    next
      case nb: False
      with False 2(4) have "l \<in> set (splitlines_from (ln @ [c]) cs)" by auto
      with False nb 2(3) have "set l \<subseteq> set (ln @ [c]) \<union> set cs" by blast
      then show ?thesis by auto
    qed
  qed
qed

lemma set_join: "set (join sep xs) \<subseteq> set sep \<union> (\<Union>l\<in>set xs. set l)"
  by (induction sep xs rule: join.induct) auto

lemma joined_lines_no_amp:
  assumes "38 \<notin> set text"
  shows "38 \<notin> set (join [10] (filter_lines [] (splitlines text)))"
proof
  assume "38 \<in> set (join [10] (filter_lines [] (splitlines text)))"
  with set_join [of "[10]" "filter_lines [] (splitlines text)"]
  obtain l where l: "l \<in> set (filter_lines [] (splitlines text))" and c: "38 \<in> set l" by auto
  from l obtain l0 where l0: "l0 \<in> set (splitlines text)" and s: "l = strip l0"
    by (auto simp: filter_lines_eq)
  from c s strip_props(2) [of l0] have "38 \<in> set l0" by blast
  with set_splitlines_from [of l0 "[]" "text"] l0 have "38 \<in> set text"
    by (auto simp: splitlines_def)
  with assms show False by simp
qed

lemma clean_univ_no_amp:
  "38 \<notin> set text \<Longrightarrow> \<exists>out. clean_text_final_univ html5 text = Inr out"
  using joined_lines_no_amp [of "text"]
  by (simp add: clean_text_final_univ_def Let_def unescape_def)

lemma clean_simple_no_amp:
  "38 \<notin> set text \<Longrightarrow> \<exists>out. clean_text_final_simple html5 text = Inr out"
  by (simp add: clean_text_final_simple_def Let_def RE_CLEAN_sub_def unescape_def)

text \<open>
  A decimal reference of more than 4300 digits makes \<open>html.unescape\<close>, and with it both
  normalizers, raise.
\<close>

lemma rstrip_semicolon_digits:
  "rstrip_semicolon (replicate n 48 @ [59]) = replicate n 48"
  by (induction n) (auto split: list.splits)

lemma match_long_decimal:
  "0 < n \<Longrightarrow> match_charref (35 # replicate n 48 @ [59]) = Some (35 # replicate n 48 @ [59], [])"
proof -
  assume n: "0 < n"
  have t: "takeWhile is_digit (replicate n 48 @ [59]) = replicate n 48"
    by (induction n) (simp_all add: is_digit_def)
  have d: "dropWhile is_digit (replicate n 48 @ [59]) = [59]"
    by (induction n) (simp_all add: is_digit_def)
  from n have "replicate n (48::nat) \<noteq> []" by simp
  with t d show ?thesis by simp
qed

lemma unescape_long_decimal:
  assumes "4300 < n"
  shows "unescape html5 (u ''&#'' @ replicate n 48 @ u '';'') = Inl (int_limit_error n)"
proof -
  from assms have n: "0 < n" by simp
  then have h: "hd (replicate n (48::nat) @ [59]) = 48" by (cases n) simp_all
  have "replace_charref html5 (35 # replicate n 48 @ [59]) = Inl (int_limit_error n)"
    using assms h by (simp add: rstrip_semicolon_digits py_int_def max_str_digits_def)
  with match_long_decimal [OF n] show ?thesis
    by (simp add: unescape_def u_def)
qed

lemma clean_simple_long_decimal:
  assumes "4300 < n"
  shows "clean_text_final_simple html5 (u ''&#'' @ replicate n 48 @ u '';'') = Inl (int_limit_error n)"
proof -
  have "RE_CLEAN_sub (u ''&#'' @ replicate n 48 @ u '';'') = u ''&#'' @ replicate n 48 @ u '';''"
    by (simp add: RE_CLEAN_sub_def u_def is_zero_width_def)
  with unescape_long_decimal [OF assms, of html5] show ?thesis
    by (simp add: clean_text_final_simple_def Let_def u_def)
qed

lemma clean_univ_long_decimal:
  assumes "4300 < n"
  shows "clean_text_final_univ html5 (u ''&#'' @ replicate n 48 @ u '';'') = Inl (int_limit_error n)"
proof -
  let ?t = "u ''&#'' @ replicate n 48 @ u '';''"
  have ne: "?t \<noteq> []" by (simp add: u_def)
  have "\<forall>c\<in>set ?t. \<not> is_linebreak c"
    by (auto simp: u_def is_linebreak_def)
  from splitlines_from_no_break [OF this, of "[]"] ne
  have lines: "splitlines ?t = [?t]" by (simp add: splitlines_def)
  have "hd ?t = 38" and "last ?t = 59" by (simp_all add: u_def)
  then have "\<not> isspace (hd ?t)" and "\<not> isspace (last ?t)" by (simp_all add: isspace_def)
  with ne have st: "strip ?t = ?t" by (rule strip_id)
  from assms have "\<not> junk_line ?t" by (simp add: junk_line_def)
  with ne have "filter_lines [] (splitlines ?t) = [?t]"
    by (simp add: lines filter_lines_eq st)
  with ne unescape_long_decimal [OF assms, of html5] show ?thesis
    by (simp add: clean_text_final_univ_def Let_def)
qed

lemma long_reference_page:
  "try_body_univ (web_of doc_long_reference) html5 example_url = Inl (int_limit_error 4301)
   \<and> get_content_universal_univ (web_of doc_long_reference) html5 example_url =
       ([], u ''Error: '' @ str_of (int_limit_error 4301))
   \<and> try_body_simple (web_of doc_long_reference) html5 example_url = Inl (int_limit_error 4301)
   \<and> get_content_universal_simple (web_of doc_long_reference) html5 example_url = []"
proof -
  have c1: "clean_text_final_univ html5 (38 # 35 # replicate 4301 48 @ [59]) =
      Inl (int_limit_error 4301)"
    using clean_univ_long_decimal [of 4301 html5] by (simp add: u_def)
  have c2: "clean_text_final_simple html5 (38 # 35 # replicate 4301 48 @ [59]) =
      Inl (int_limit_error 4301)"
    using clean_simple_long_decimal [of 4301 html5] by (simp add: u_def)
  show ?thesis
    by (simp add: extract_ev doc_long_reference_def str_ev c1 c2)
qed

text \<open>After \<open>decompose\<close> no tag of the given names is left in the tree.\<close>

lemma descendants_decompose_all:
  "Tag n a cs \<in> set (descendants (decompose_all names nodes)) \<Longrightarrow> n \<notin> set names"
  by (induction names nodes rule: decompose_all.induct) (auto split: if_splits)

section \<open>The claims\<close>

subsection \<open>Content extractor\<close>

text \<open>
  C1 (as amended). When the page is fetched and parsed, and a node of tag div, article or
  section in the document matches one of the ordered Sniper rules, the universal variant
  takes the node found by the first rule of the list that finds one, removes the script and
  style tags from it and normalizes its text: it returns that text with the method
  "Sniper (Targeted)", or, when the normalizer raises, the empty text with the method
  "Error: " and the message; the later tiers are not reached. The simpler variant returns
  no method, and its rules (div, article, section or main) are tried on the document from
  which the denylisted tags have been removed, where no such tag is left: when a node
  matches there, it returns the normalized text of the node of the first rule that finds
  one, or the empty string when the normalizer raises. The normalizers return whenever the
  text has no ampersand.
\<close>

theorem sniper_first_match_wins:
  assumes "requests_get env url = Inr res" and "raise_for_status res = None"
    and "BeautifulSoup env (content res) = Inr soup"
  shows "((\<exists>a\<in>set targets_univ. \<exists>n\<in>set (descendants (contents soup)).
              search_tag names_univ a n) \<longrightarrow>
           (\<exists>pre attrs post node. targets_univ = pre @ attrs # post
              \<and> (\<forall>a\<in>set pre. soup_find names_univ a soup = None)
              \<and> soup_find names_univ attrs soup = Some node
              \<and> get_content_universal_univ env html5 url =
                  (case clean_text_final_univ html5
                          (get_text [10] (decompose_in junk_univ node)) of
                     Inr cleaned \<Rightarrow> (cleaned, u ''Sniper (Targeted)'')
                   | Inl e \<Rightarrow> ([], u ''Error: '' @ str_of e))
              \<and> (38 \<notin> set (get_text [10] (decompose_in junk_univ node)) \<longrightarrow>
                    snd (get_content_universal_univ env html5 url) = u ''Sniper (Targeted)'')))
       \<and> ((\<exists>a\<in>set targets_simple.
              \<exists>n\<in>set (descendants (contents (decompose_in denylist_simple soup))).
                search_tag names_simple a n) \<longrightarrow>
           (\<exists>pre attrs post node. targets_simple = pre @ attrs # post
              \<and> (\<forall>a\<in>set pre. soup_find names_simple a (decompose_in denylist_simple soup) = None)
              \<and> soup_find names_simple attrs (decompose_in denylist_simple soup) = Some node
              \<and> get_content_universal_simple env html5 url =
                  (case clean_text_final_simple html5 (get_text [10] node) of
                     Inr cleaned \<Rightarrow> cleaned
                   | Inl e \<Rightarrow> [])
              \<and> (38 \<notin> set (get_text [10] node) \<longrightarrow>
                    clean_text_final_simple html5 (get_text [10] node) =
                      Inr (get_content_universal_simple env html5 url))))
       \<and> (\<forall>n a cs. Tag n a cs \<in> set (descendants (contents (decompose_in denylist_simple soup)))
              \<longrightarrow> n \<notin> set denylist_simple)"
proof (intro conjI impI allI)
  assume "\<exists>a\<in>set targets_univ. \<exists>n\<in>set (descendants (contents soup)).
      search_tag names_univ a n"
  then have "\<exists>a\<in>set targets_univ. soup_find names_univ a soup \<noteq> None"
    by (simp add: soup_find_None_iff)
  from first_target_exists [OF this] obtain pre attrs post node where
    p: "targets_univ = pre @ attrs # post" "\<forall>a\<in>set pre. soup_find names_univ a soup = None"
       "soup_find names_univ attrs soup = Some node"
       "first_target names_univ targets_univ soup = Some node" by blast
  let ?raw = "get_text [10] (decompose_in junk_univ node)"
  from assms p(4) have r: "get_content_universal_univ env html5 url =
      (case clean_text_final_univ html5 ?raw of
         Inr cleaned \<Rightarrow> (cleaned, u ''Sniper (Targeted)'')
       | Inl e \<Rightarrow> ([], u ''Error: '' @ str_of e))"
    by (simp add: get_content_universal_univ_def try_body_univ_def split: sum.splits)
  have "38 \<notin> set ?raw \<longrightarrow>
      snd (get_content_universal_univ env html5 url) = u ''Sniper (Targeted)''"
  proof
    assume "38 \<notin> set ?raw"
    from clean_univ_no_amp [OF this] obtain out where
      "clean_text_final_univ html5 ?raw = Inr out" by blast
    with r show "snd (get_content_universal_univ env html5 url) = u ''Sniper (Targeted)''"
      by simp
  qed
  with p(1-3) r show "\<exists>pre attrs post node. targets_univ = pre @ attrs # post
      \<and> (\<forall>a\<in>set pre. soup_find names_univ a soup = None)
      \<and> soup_find names_univ attrs soup = Some node
      \<and> get_content_universal_univ env html5 url =
          (case clean_text_final_univ html5
                  (get_text [10] (decompose_in junk_univ node)) of
             Inr cleaned \<Rightarrow> (cleaned, u ''Sniper (Targeted)'')
           | Inl e \<Rightarrow> ([], u ''Error: '' @ str_of e))
      \<and> (38 \<notin> set (get_text [10] (decompose_in junk_univ node)) \<longrightarrow>
            snd (get_content_universal_univ env html5 url) = u ''Sniper (Targeted)'')"
    by blast
next
  let ?soup = "decompose_in denylist_simple soup"
  assume "\<exists>a\<in>set targets_simple. \<exists>n\<in>set (descendants (contents ?soup)).
      search_tag names_simple a n"
  then have "\<exists>a\<in>set targets_simple. soup_find names_simple a ?soup \<noteq> None"
    by (simp add: soup_find_None_iff)
  from first_target_exists [OF this] obtain pre attrs post node where
    p: "targets_simple = pre @ attrs # post" "\<forall>a\<in>set pre. soup_find names_simple a ?soup = None"
       "soup_find names_simple attrs ?soup = Some node"
       "first_target names_simple targets_simple ?soup = Some node" by blast
  from assms p(4) have r: "get_content_universal_simple env html5 url =
      (case clean_text_final_simple html5 (get_text [10] node) of
         Inr cleaned \<Rightarrow> cleaned
       | Inl e \<Rightarrow> [])"
    by (simp add: get_content_universal_simple_def try_body_simple_def split: sum.splits)
  have "38 \<notin> set (get_text [10] node) \<longrightarrow>
      clean_text_final_simple html5 (get_text [10] node) =
        Inr (get_content_universal_simple env html5 url)"
  proof
    assume "38 \<notin> set (get_text [10] node)"
    from clean_simple_no_amp [OF this] obtain out where
      "clean_text_final_simple html5 (get_text [10] node) = Inr out" by blast
    with r show "clean_text_final_simple html5 (get_text [10] node) =
        Inr (get_content_universal_simple env html5 url)"
      by simp
  qed
  with p(1-3) r show "\<exists>pre attrs post node. targets_simple = pre @ attrs # post
      \<and> (\<forall>a\<in>set pre. soup_find names_simple a ?soup = None)
      \<and> soup_find names_simple attrs ?soup = Some node
      \<and> get_content_universal_simple env html5 url =
          (case clean_text_final_simple html5 (get_text [10] node) of
             Inr cleaned \<Rightarrow> cleaned
           | Inl e \<Rightarrow> [])
      \<and> (38 \<notin> set (get_text [10] node) \<longrightarrow>
            clean_text_final_simple html5 (get_text [10] node) =
              Inr (get_content_universal_simple env html5 url))"
    by blast
next
  fix n a cs
  assume "Tag n a cs \<in> set (descendants (contents (decompose_in denylist_simple soup)))"
  then show "n \<notin> set denylist_simple"
    by (cases soup) (auto dest: descendants_decompose_all)
qed

theorem sniper_first_match_wins_witness:
  "(\<exists>pre attrs post node. targets_univ = pre @ attrs # post
      \<and> (\<forall>a\<in>set pre. soup_find names_univ a doc_article = None)
      \<and> soup_find names_univ attrs doc_article = Some node
      \<and> get_content_universal_univ (web_of doc_article) html5_core example_url =
          (case clean_text_final_univ html5_core
                  (get_text [10] (decompose_in junk_univ node)) of
             Inr cleaned \<Rightarrow> (cleaned, u ''Sniper (Targeted)'')
           | Inl e \<Rightarrow> ([], u ''Error: '' @ str_of e)))
   \<and> get_content_universal_univ (web_of doc_article) html5_core example_url =
        (u ''Text here'', u ''Sniper (Targeted)'')
   \<and> (\<exists>pre attrs post node. targets_simple = pre @ attrs # post
      \<and> (\<forall>a\<in>set pre.
            soup_find names_simple a (decompose_in denylist_simple doc_article) = None)
      \<and> soup_find names_simple attrs (decompose_in denylist_simple doc_article) = Some node
      \<and> get_content_universal_simple (web_of doc_article) html5_core example_url =
          (case clean_text_final_simple html5_core (get_text [10] node) of
             Inr cleaned \<Rightarrow> cleaned
           | Inl e \<Rightarrow> []))
   \<and> get_content_universal_simple (web_of doc_article) html5_core example_url = u ''Text here''
   \<and> get_content_universal_univ (web_of doc_long_reference) html5_core example_url =
        ([], u ''Error: '' @ str_of (int_limit_error 4301))
   \<and> get_content_universal_simple (web_of doc_long_reference) html5_core example_url = []"
proof -
  have h1: "requests_get (web_of doc_article) example_url = Inr ok_response"
    by (simp add: web_of_def)
  have h2: "raise_for_status ok_response = None"
    by (simp add: ok_response_def)
  have h3: "BeautifulSoup (web_of doc_article) (content ok_response) = Inr doc_article"
    by (simp add: web_of_def)
  have m1: "\<exists>a\<in>set targets_univ. \<exists>n\<in>set (descendants (contents doc_article)).
      search_tag names_univ a n"
    by (simp add: targets_univ_def names_univ_def doc_article_def str_ev)
  have m2: "\<exists>a\<in>set targets_simple.
      \<exists>n\<in>set (descendants (contents (decompose_in denylist_simple doc_article))).
        search_tag names_simple a n"
    by (simp add: targets_simple_def names_simple_def denylist_simple_def
        doc_article_def str_ev)
  have v1: "get_content_universal_univ (web_of doc_article) html5_core example_url =
      (u ''Text here'', u ''Sniper (Targeted)'')"
    by (simp add: extract_ev doc_article_def clean_ev str_ev)
  have v2: "get_content_universal_simple (web_of doc_article) html5_core example_url =
      u ''Text here''"
    by (simp add: extract_ev doc_article_def clean_ev str_ev)
  from sniper_first_match_wins [OF h1 h2 h3, of html5_core] m1 m2 v1 v2
    long_reference_page [of html5_core]
  show ?thesis by blast
qed

text \<open>
  The claim as stated fails in the simpler variant: the page
  \<open><form><div class="article-body">Hello</div></form>\<close> has a div that the rule
  class=article-body matches, its normalized text is \<open>Hello\<close>, and the extractor
  answers the empty string, because the form is removed before the rules are tried.
\<close>

theorem sniper_denylisted_counterexample:
  "(u ''class'', u ''article-body'') \<in> set targets_simple
   \<and> Tag (u ''div'') [(u ''class'', AttrList [u ''article-body''])]
         [NavigableString PlainString (u ''Hello'')]
       \<in> set (descendants (contents doc_form))
   \<and> search_tag names_simple (u ''class'', u ''article-body'')
         (Tag (u ''div'') [(u ''class'', AttrList [u ''article-body''])]
            [NavigableString PlainString (u ''Hello'')])
   \<and> soup_find names_simple (u ''class'', u ''article-body'') doc_form =
       Some (Tag (u ''div'') [(u ''class'', AttrList [u ''article-body''])]
               [NavigableString PlainString (u ''Hello'')])
   \<and> clean_text_final_simple html5_core
         (get_text [10] (Tag (u ''div'') [(u ''class'', AttrList [u ''article-body''])]
                          [NavigableString PlainString (u ''Hello'')])) = Inr (u ''Hello'')
   \<and> get_content_universal_simple (web_of doc_form) html5_core example_url = []"
  by (simp add: extract_ev doc_form_def clean_ev str_ev)

text \<open>
  C2 (as amended). The method returned by the universal variant is "Sniper (Targeted)",
  "AI (Trafilatura)", "Fallback (Sweep)" or "Error: " followed by the message of the
  exception caught; there is no Empty method. When the method is an Error tag the text is
  empty. The converse does not hold: the text of a Sniper, AI or Sweep result is whatever
  the normalizer returns, the empty string included.
\<close>

theorem extract_error_text_empty:
  "((\<exists>text. get_content_universal_univ env html5 url = (text, u ''Sniper (Targeted)''))
    \<or> (\<exists>text. get_content_universal_univ env html5 url = (text, u ''AI (Trafilatura)''))
    \<or> (\<exists>text. get_content_universal_univ env html5 url = (text, u ''Fallback (Sweep)''))
    \<or> (\<exists>e. try_body_univ env html5 url = Inl e
          \<and> get_content_universal_univ env html5 url = ([], u ''Error: '' @ str_of e)))
   \<and> (startswith (snd (get_content_universal_univ env html5 url)) (u ''Error: '')
        \<longrightarrow> fst (get_content_universal_univ env html5 url) = [])"
  by (auto simp: get_content_universal_univ_def try_body_univ_def u_def
      split: sum.splits option.splits list.splits)

theorem extract_error_text_empty_witness:
  "startswith (snd (get_content_universal_univ web_timeout html5_core example_url)) (u ''Error: '')
   \<and> get_content_universal_univ web_timeout html5_core example_url =
       ([], u ''Error: Read timed out.'')"
proof -
  have v: "get_content_universal_univ web_timeout html5_core example_url =
      ([], u ''Error: Read timed out.'')"
    by (simp add: get_content_universal_univ_def try_body_univ_def web_timeout_def u_def)
  have s: "startswith (snd (get_content_universal_univ web_timeout html5_core example_url))
      (u ''Error: '')"
    by (simp add: v) (simp add: u_def)
  from extract_error_text_empty [of web_timeout html5_core example_url] s v
  show ?thesis by simp
qed

text \<open>
  The claim as stated fails: for the page \<open><div class="article-body"></div>\<close> the rule
  class=article-body finds the empty div, and the result is the empty text with the
  method "Sniper (Targeted)".
\<close>

theorem sniper_empty_text_counterexample:
  "get_content_universal_univ (web_of doc_empty_article) html5_core example_url =
     ([], u ''Sniper (Targeted)'')"
  by (simp add: extract_ev doc_empty_article_def clean_ev str_ev)

text \<open>
  C3 (as amended). No exception of the body of the \<open>try\<close> statement leaves the extractor,
  and a value that the body returns is returned as it is. When the body raises, the
  universal variant returns the empty text with the method \<open>Error: \<close> followed by the
  message; the simpler variant, which has no method, returns the empty string alone, the
  answer it also gives for a page with too little text. In particular this is the result
  when the request raises (a timeout, a connection error), when \<open>raise_for_status\<close> raises
  (an error status) and when the parse of the body raises.
\<close>

theorem extract_error_caught:
  "(try_body_univ env html5 url = Inl e
      \<longrightarrow> get_content_universal_univ env html5 url = ([], u ''Error: '' @ str_of e))
   \<and> (try_body_univ env html5 url = Inr r
      \<longrightarrow> get_content_universal_univ env html5 url = r)
   \<and> (try_body_simple env html5 url = Inl e
      \<longrightarrow> get_content_universal_simple env html5 url = [])
   \<and> (try_body_simple env html5 url = Inr t
      \<longrightarrow> get_content_universal_simple env html5 url = t)
   \<and> (requests_get env url = Inl e
        \<or> (\<exists>res. requests_get env url = Inr res
              \<and> (raise_for_status res = Some e
                  \<or> (raise_for_status res = None \<and> BeautifulSoup env (content res) = Inl e)))
      \<longrightarrow> try_body_univ env html5 url = Inl e
          \<and> try_body_simple env html5 url = Inl e
          \<and> get_content_universal_univ env html5 url = ([], u ''Error: '' @ str_of e)
          \<and> get_content_universal_simple env html5 url = [])"
  by (auto simp: get_content_universal_univ_def get_content_universal_simple_def
      try_body_univ_def try_body_simple_def)

theorem extract_error_caught_witness:
  "requests_get web_timeout example_url = Inl (PyException (u ''Read timed out.''))
   \<and> try_body_univ web_timeout html5_core example_url = Inl (PyException (u ''Read timed out.''))
   \<and> get_content_universal_univ web_timeout html5_core example_url =
        ([], u ''Error: Read timed out.'')
   \<and> get_content_universal_simple web_timeout html5_core example_url = []
   \<and> get_content_universal_univ (web_of doc_long_reference) html5_core example_url =
        ([], u ''Error: '' @ str_of (int_limit_error 4301))"
proof -
  have h: "requests_get web_timeout example_url = Inl (PyException (u ''Read timed out.''))"
    by (simp add: web_timeout_def)
  from extract_error_caught [of web_timeout html5_core example_url
      "PyException (u ''Read timed out.'')"] h
  have "try_body_univ web_timeout html5_core example_url = Inl (PyException (u ''Read timed out.''))
      \<and> get_content_universal_univ web_timeout html5_core example_url =
        ([], u ''Error: '' @ str_of (PyException (u ''Read timed out.'')))
      \<and> get_content_universal_simple web_timeout html5_core example_url = []"
    by blast
  moreover have "u ''Error: '' @ str_of (PyException (u ''Read timed out.'')) =
      u ''Error: Read timed out.''"
    by (simp add: u_def)
  moreover from extract_error_caught [of "web_of doc_long_reference" html5_core example_url
      "int_limit_error 4301"] long_reference_page [of html5_core]
  have "get_content_universal_univ (web_of doc_long_reference) html5_core example_url =
      ([], u ''Error: '' @ str_of (int_limit_error 4301))"
    by blast
  ultimately show ?thesis using h by simp
qed

text \<open>
  The claim as stated fails in the simpler variant, which returns no method: when the
  request times out its answer is the empty string, and that is also its answer for the
  page \<open><p>Hello</p>\<close>, fetched and parsed without any exception.
\<close>

theorem simple_error_untagged_counterexample:
  "requests_get web_timeout example_url = Inl (PyException (u ''Read timed out.''))
   \<and> get_content_universal_simple web_timeout html5_core example_url = []
   \<and> try_body_simple (web_of doc_hello) html5_core example_url = Inr []
   \<and> get_content_universal_simple (web_of doc_hello) html5_core example_url = []"
  by (simp add: extract_ev web_timeout_def doc_hello_def clean_ev str_ev)

text \<open>
  C4 (as amended). The minimum length is a rule of the simpler variant only: when no rule
  finds a node, the simpler variant returns the normalized text of the sweep if it has more
  than 100 characters, and the empty string if it has at most 100 characters or the
  normalizer raises. The universal variant has no minimum length: when no rule finds a node
  and \<open>trafilatura\<close> is not installed or extracts nothing, it returns the normalized text of
  the sweep, whatever its length, with the method "Fallback (Sweep)", or, when the
  normalizer raises, the empty text with the method "Error: " and the message. The
  normalizers return whenever the text has no ampersand.
\<close>

theorem sweep_minimum_length:
  assumes "requests_get env url = Inr res" and "raise_for_status res = None"
    and "BeautifulSoup env (content res) = Inr soup"
  shows "(first_target names_simple targets_simple (decompose_in denylist_simple soup) = None
          \<longrightarrow> get_content_universal_simple env html5 url =
                (case clean_text_final_simple html5
                        (get_text [10] (decompose_in denylist_simple soup)) of
                   Inr cleaned \<Rightarrow> if length cleaned > 100 then cleaned else []
                 | Inl e \<Rightarrow> []))
       \<and> (first_target names_univ targets_univ soup = None
          \<and> (\<not> TRAFILATURA_AVAILABLE env
               \<or> trafilatura_extract env (content res) = Inr None
               \<or> trafilatura_extract env (content res) = Inr (Some []))
          \<longrightarrow> get_content_universal_univ env html5 url =
                (case clean_text_final_univ html5
                        (get_text [10] (decompose_in denylist_univ soup)) of
                   Inr cleaned \<Rightarrow> (cleaned, u ''Fallback (Sweep)'')
                 | Inl e \<Rightarrow> ([], u ''Error: '' @ str_of e))
              \<and> (38 \<notin> set (get_text [10] (decompose_in denylist_univ soup)) \<longrightarrow>
                    snd (get_content_universal_univ env html5 url) = u ''Fallback (Sweep)''))"
proof (intro conjI impI)
  assume "first_target names_simple targets_simple (decompose_in denylist_simple soup) = None"
  with assms show "get_content_universal_simple env html5 url =
      (case clean_text_final_simple html5
              (get_text [10] (decompose_in denylist_simple soup)) of
         Inr cleaned \<Rightarrow> if length cleaned > 100 then cleaned else []
       | Inl e \<Rightarrow> [])"
    by (simp add: get_content_universal_simple_def try_body_simple_def Let_def
        split: sum.splits)
next
  let ?raw = "get_text [10] (decompose_in denylist_univ soup)"
  assume a: "first_target names_univ targets_univ soup = None
      \<and> (\<not> TRAFILATURA_AVAILABLE env
           \<or> trafilatura_extract env (content res) = Inr None
           \<or> trafilatura_extract env (content res) = Inr (Some []))"
  with assms show r: "get_content_universal_univ env html5 url =
      (case clean_text_final_univ html5 ?raw of
         Inr cleaned \<Rightarrow> (cleaned, u ''Fallback (Sweep)'')
       | Inl e \<Rightarrow> ([], u ''Error: '' @ str_of e))"
    by (auto simp: get_content_universal_univ_def try_body_univ_def split: sum.splits)
  assume "38 \<notin> set ?raw"
  from clean_univ_no_amp [OF this] obtain out where
    "clean_text_final_univ html5 ?raw = Inr out" by blast
  with r show "snd (get_content_universal_univ env html5 url) = u ''Fallback (Sweep)''"
    by simp
qed

theorem sweep_minimum_length_witness:
  "clean_text_final_simple html5_core (get_text [10] (decompose_in denylist_simple doc_hello)) =
     Inr (u ''Hello'')
   \<and> get_content_universal_simple (web_of doc_hello) html5_core example_url = []
   \<and> get_content_universal_univ (web_of doc_hello) html5_core example_url =
       (u ''Hello'', u ''Fallback (Sweep)'')"
proof -
  have h1: "requests_get (web_of doc_hello) example_url = Inr ok_response"
    by (simp add: web_of_def)
  have h2: "raise_for_status ok_response = None"
    by (simp add: ok_response_def)
  have h3: "BeautifulSoup (web_of doc_hello) (content ok_response) = Inr doc_hello"
    by (simp add: web_of_def)
  have n1: "first_target names_simple targets_simple (decompose_in denylist_simple doc_hello) = None"
    by (simp add: soup_find_def targets_simple_def names_simple_def denylist_simple_def
        doc_hello_def str_ev)
  have l: "clean_text_final_simple html5_core
      (get_text [10] (decompose_in denylist_simple doc_hello)) = Inr (u ''Hello'')"
    by (simp add: denylist_simple_def doc_hello_def interesting_string_types_def clean_ev str_ev)
  have l100: "\<not> length (u ''Hello'') > 100"
    by (simp add: u_def)
  have n2: "first_target names_univ targets_univ doc_hello = None"
    by (simp add: soup_find_def targets_univ_def names_univ_def doc_hello_def str_ev)
  have t: "\<not> TRAFILATURA_AVAILABLE (web_of doc_hello)"
    by (simp add: web_of_def)
  have c: "clean_text_final_univ html5_core
      (get_text [10] (decompose_in denylist_univ doc_hello)) = Inr (u ''Hello'')"
    by (simp add: denylist_univ_def doc_hello_def interesting_string_types_def clean_ev str_ev)
  from sweep_minimum_length [OF h1 h2 h3, of html5_core] n1 n2 t
  have "get_content_universal_simple (web_of doc_hello) html5_core example_url =
      (case clean_text_final_simple html5_core
              (get_text [10] (decompose_in denylist_simple doc_hello)) of
         Inr cleaned \<Rightarrow> if length cleaned > 100 then cleaned else []
       | Inl e \<Rightarrow> [])"
    and "get_content_universal_univ (web_of doc_hello) html5_core example_url =
      (case clean_text_final_univ html5_core
              (get_text [10] (decompose_in denylist_univ doc_hello)) of
         Inr cleaned \<Rightarrow> (cleaned, u ''Fallback (Sweep)'')
       | Inl e \<Rightarrow> ([], u ''Error: '' @ str_of e))"
    by blast+
  then show ?thesis
    by (simp only: l c sum.case l100 if_False)
qed

text \<open>
  The claim as stated fails in the universal variant: for the page \<open><p>Hello</p>\<close> no rule
  finds a node, \<open>trafilatura\<close> is not installed, the normalized text of the sweep has five
  characters, and the result is that text with the method "Fallback (Sweep)".
\<close>

theorem sweep_short_text_counterexample:
  "first_target names_univ targets_univ doc_hello = None
   \<and> length (u ''Hello'') \<le> 100
   \<and> get_content_universal_univ (web_of doc_hello) html5_core example_url =
       (u ''Hello'', u ''Fallback (Sweep)'')"
  by (simp add: extract_ev doc_hello_def clean_ev str_ev)

text \<open>
  C8. The code removes from the matched node the tags named \<open>script\<close>, \<open>style\<close>,
  \<open>div.ads\<close> and \<open>div.related\<close>: the last two are given to \<open>find_all\<close> as tag names, not as
  selectors, so a div of class \<open>ads\<close> stays. For the page
  \<open><div class="article-body">Text<script>x</script><div class="ads">BUY NOW</div></div>\<close>
  the text of the script is gone and the text of the advertisement is in the result.
\<close>

theorem sniper_keeps_ads:
  "get_content_universal_univ (web_of doc_ads) html5_core example_url =
     (u ''Text BUY NOW'', u ''Sniper (Targeted)'')"
  by (simp add: extract_ev doc_ads_def clean_ev str_ev)

theorem sniper_keeps_ads_witness:
  "get_content_universal_univ (web_of doc_ads) html5_core example_url =
     (u ''Text BUY NOW'', u ''Sniper (Targeted)'')
   \<and> contains (u ''BUY NOW'') (fst (get_content_universal_univ (web_of doc_ads) html5_core example_url))"
proof -
  have c: "contains (u ''BUY NOW'') (u ''Text BUY NOW'')"
    by (simp add: u_def)
  from sniper_keeps_ads c show ?thesis by simp
qed

subsection \<open>Tokenizer adapter\<close>

text \<open>
  C7. \<open>tokenize_text\<close> of the empty string is the empty list, and the engines are not
  called (their state is unchanged), whichever engines are installed, in both variants.
\<close>

theorem tokenize_text_empty:
  "tokenize_text_univ avail deepcut st [] = ([], st)
   \<and> tokenize_text_simple avail1 avail2 attacut deepcut' st' [] = ([], st')"
  by (simp add: tokenize_text_univ_def tokenize_text_simple_def)

theorem tokenize_text_empty_witness:
  "tokenize_text_univ True failing_engine 0 [] = ([], 0)
   \<and> tokenize_text_simple True False failing_engine failing_engine 0 [] = ([], 0)"
  by (rule tokenize_text_empty)

text \<open>
  C6 (as amended). For a non-empty text, when the engine raises on the first call and the
  reload raises or the call after it raises again, the universal variant returns
  \<open>text.split()\<close>. The simpler variant returns \<open>text.split()\<close> as soon as the engine it
  calls raises, be it \<open>attacut\<close> or, when \<open>attacut\<close> is not installed, \<open>deepcut\<close>, and also
  when neither is installed. The result is non-empty exactly when the text has a character
  that is not whitespace.
\<close>

theorem tokenize_text_fallback:
  assumes "text \<noteq> []"
  shows "(tokenize deepcut st text = (Inl e1, st1) \<and>
          (reload deepcut st1 = (Some e2, st2) \<or>
           (reload deepcut st1 = (None, st') \<and> tokenize deepcut st' text = (Inl e2, st2)))
          \<longrightarrow> tokenize_text_univ True deepcut st text = (split text, st2))
       \<and> (tokenize attacut st text = (Inl e1, st1)
          \<longrightarrow> tokenize_text_simple True avail attacut deepcut' st text = (split text, st1))
       \<and> (tokenize deepcut' st text = (Inl e1, st1)
          \<longrightarrow> tokenize_text_simple False True attacut deepcut' st text = (split text, st1))
       \<and> tokenize_text_simple False False attacut deepcut' st text = (split text, st)
       \<and> (split text \<noteq> [] \<longleftrightarrow> (\<exists>c\<in>set text. \<not> isspace c))"
  using assms
  by (auto simp: tokenize_text_univ_def tokenize_text_simple_def split_nonempty)

theorem tokenize_text_fallback_witness:
  "tokenize_text_univ True failing_engine 0 (u ''ab  c'') = ([u ''ab'', u ''c''], 2)
   \<and> tokenize_text_simple True False failing_engine failing_engine 0 (u ''ab  c'') =
       ([u ''ab'', u ''c''], 1)
   \<and> tokenize_text_simple False True failing_engine failing_engine 0 (u ''ab  c'') =
       ([u ''ab'', u ''c''], 1)
   \<and> tokenize_text_simple False False failing_engine failing_engine 0 (u ''ab  c'') =
       ([u ''ab'', u ''c''], 0)"
proof -
  have t: "u ''ab  c'' \<noteq> []" by (simp add: u_def)
  have s: "split (u ''ab  c'') = [u ''ab'', u ''c'']"
    by (simp add: split_def u_def isspace_def)
  show ?thesis
    using tokenize_text_fallback [OF t, where deepcut = failing_engine and st = 0
        and ?e1.0 = "PyException (u ''session corrupted'')" and ?st1.0 = 1
        and ?e2.0 = "PyException (u ''session corrupted'')" and ?st2.0 = 2 and st' = 1
        and attacut = failing_engine and avail = False and deepcut' = failing_engine]
    by (simp add: failing_engine_def s)
qed

text \<open>
  The claim as stated fails for a text of whitespace only: a single space is a non-empty
  string, both calls of the engine raise, and the result is the empty list.
\<close>

theorem tokenize_text_blank_counterexample:
  "[32] \<noteq> ([] :: ustr)
   \<and> tokenize failing_engine 0 [32] = (Inl (PyException (u ''session corrupted'')), 1)
   \<and> reload failing_engine 1 = (None, 1)
   \<and> tokenize failing_engine 1 [32] = (Inl (PyException (u ''session corrupted'')), 2)
   \<and> tokenize_text_univ True failing_engine 0 [32] = ([], 2)"
  by (simp add: tokenize_text_univ_def failing_engine_def split_def isspace_def)

subsection \<open>Text normalizer\<close>

text \<open>
  C5 (as amended). Let the first pass of the normalizer return the string \<open>y\<close>. In the
  universal variant the second pass returns \<open>y\<close> when \<open>y\<close> is not a junk line (it has at
  least 40 characters or no keyword of the stoplist) and the empty string when it is one;
  a junk line is not empty, so normalizing twice gives the same as normalizing once exactly
  when \<open>y\<close> is not a junk line. In the simpler variant the second pass returns \<open>y\<close> at
  least when \<open>y\<close> has no ampersand and no zero-width character.
\<close>

theorem clean_text_final_twice:
  "(clean_text_final_univ html5 x = Inr y \<longrightarrow>
      clean_text_final_univ html5 y = Inr (if junk_line y then [] else y)
      \<and> (junk_line y \<longrightarrow> y \<noteq> [] \<and> clean_text_final_univ html5 y = Inr [])
      \<and> (clean_text_final_univ html5 y = Inr y \<longleftrightarrow> \<not> junk_line y))
   \<and> (clean_text_final_simple html5 x = Inr y
        \<and> 38 \<notin> set y \<and> (\<forall>c\<in>set y. \<not> is_zero_width c)
      \<longrightarrow> clean_text_final_simple html5 y = Inr y)"
proof (intro conjI impI)
  assume x: "clean_text_final_univ html5 x = Inr y"
  show fixed: "clean_text_final_univ html5 y = Inr (if junk_line y then [] else y)"
    by (rule clean_univ_fixed) (rule clean_univ_shape(1) [OF x],
        erule clean_univ_shape(2) [OF x], erule clean_univ_shape(3) [OF x])
  have ne: "junk_line y \<Longrightarrow> y \<noteq> []"
    using any_junk_Nil by (auto simp: junk_line_def)
  from fixed ne show "clean_text_final_univ html5 y = Inr y \<longleftrightarrow> \<not> junk_line y"
    by auto
  assume "junk_line y"
  with fixed ne show "y \<noteq> []" and "clean_text_final_univ html5 y = Inr []"
    by simp_all
next
  assume a: "clean_text_final_simple html5 x = Inr y
      \<and> 38 \<notin> set y \<and> (\<forall>c\<in>set y. \<not> is_zero_width c)"
  then have x: "clean_text_final_simple html5 x = Inr y" by simp
  show "clean_text_final_simple html5 y = Inr y"
    by (rule clean_simple_fixed) (rule clean_simple_shape(1) [OF x],
        erule clean_simple_shape(2) [OF x], simp add: a, simp add: a)
qed

theorem clean_text_final_twice_witness:
  "clean_text_final_univ html5_core (u '' Hello   world '' @ [8203]) = Inr (u ''Hello world'')
   \<and> clean_text_final_univ html5_core (u ''Hello world'') = Inr (u ''Hello world'')
   \<and> clean_text_final_simple html5_core (u '' Hello   world '' @ [8203]) = Inr (u ''Hello world'')
   \<and> clean_text_final_simple html5_core (u ''Hello world'') = Inr (u ''Hello world'')"
proof -
  have v1: "clean_text_final_univ html5_core (u '' Hello   world '' @ [8203]) = Inr (u ''Hello world'')"
    by (simp add: clean_ev str_ev)
  have v2: "clean_text_final_simple html5_core (u '' Hello   world '' @ [8203]) = Inr (u ''Hello world'')"
    by (simp add: clean_ev str_ev)
  have nj: "\<not> junk_line (u ''Hello world'')"
    by (simp add: junk_line_def any_junk_def JUNK_KEYWORDS_def u_def)
  have na: "38 \<notin> set (u ''Hello world'') \<and> (\<forall>c\<in>set (u ''Hello world''). \<not> is_zero_width c)"
    by (simp add: u_def is_zero_width_def)
  from clean_text_final_twice [of html5_core "u '' Hello   world '' @ [8203]" "u ''Hello world''"]
    v1 v2 nj na
  show ?thesis by blast
qed

text \<open>
  The claim as stated fails in both variants. In the universal variant a line of 40
  characters, \<open>Login\<close> and 35 exclamation marks, is kept and normalizes to \<open>Login\<close>, which
  is a junk line and normalizes to the empty string. In the simpler variant
  \<open>&amp;amp;\<close> normalizes to \<open>&amp;\<close>, which normalizes to \<open>&\<close>.
\<close>

theorem clean_text_final_twice_counterexample:
  "clean_text_final_univ html5_core (u ''Login!!!!!!!!!!!!!!!!!!!!!!!!!!!!!!!!!!!'') = Inr (u ''Login'')
   \<and> clean_text_final_univ html5_core (u ''Login'') = Inr []
   \<and> clean_text_final_simple html5_core (u ''&amp;amp;'') = Inr (u ''&amp;'')
   \<and> clean_text_final_simple html5_core (u ''&amp;'') = Inr (u ''&'')"
proof -
  have v1: "clean_text_final_univ html5_core (u ''Login!!!!!!!!!!!!!!!!!!!!!!!!!!!!!!!!!!!'') = Inr (u ''Login'')"
    by (simp add: clean_ev str_ev)
  have v2: "clean_text_final_univ html5_core (u ''Login'') = Inr []"
    by (simp add: clean_ev str_ev)
  have v3: "clean_text_final_simple html5_core (u ''&amp;amp;'') = Inr (u ''&amp;'')"
    by (simp add: clean_ev str_ev unescape_ev)
  have v4: "clean_text_final_simple html5_core (u ''&amp;'') = Inr (u ''&'')"
    by (simp add: clean_ev str_ev unescape_ev)
  from v1 v2 v3 v4 show ?thesis by blast
qed

text \<open>
  C9 (as amended). The loop of the universal variant strips every line of
  \<open>text.splitlines()\<close> and keeps, in order, the stripped lines that are not empty and are not
  junk lines; a junk line has fewer than 40 characters and has a keyword of the stoplist as
  a substring. So a line is dropped exactly when its stripped form is empty or is a junk
  line, and the rest of the normalizer runs on the kept lines joined by newlines: it
  returns the stripped, whitespace-collapsed, allow-listed text of what \<open>html.unescape\<close>
  returns for them, and raises what \<open>html.unescape\<close> raises.
\<close>

theorem junk_lines_dropped:
  "filter_lines [] (splitlines text) =
     filter (\<lambda>l. l \<noteq> [] \<and> \<not> (length l < 40 \<and> (\<exists>j\<in>set JUNK_KEYWORDS. \<exists>a b. l = a @ j @ b)))
       (map strip (splitlines text))
   \<and> (text \<noteq> [] \<longrightarrow>
        clean_text_final_univ html5 text =
          (case unescape html5 (join [10]
                  (filter (\<lambda>l. l \<noteq> [] \<and> \<not> (length l < 40 \<and> (\<exists>j\<in>set JUNK_KEYWORDS. \<exists>a b. l = a @ j @ b)))
                     (map strip (splitlines text)))) of
             Inl e \<Rightarrow> Inl e
           | Inr t \<Rightarrow> Inr (strip (collapse_ws (RE_KEEP_sub (RE_CLEAN_sub t))))))"
proof -
  have "filter_lines [] (splitlines text) =
      filter (\<lambda>l. l \<noteq> [] \<and> \<not> junk_line l) (map strip (splitlines text))"
    by (simp add: filter_lines_eq)
  also have "(\<lambda>l. l \<noteq> [] \<and> \<not> junk_line l) =
      (\<lambda>l. l \<noteq> [] \<and> \<not> (length l < 40 \<and> (\<exists>j\<in>set JUNK_KEYWORDS. \<exists>a b. l = a @ j @ b)))"
    by (simp add: junk_line_def any_junk_iff)
  finally have e: "filter_lines [] (splitlines text) =
      filter (\<lambda>l. l \<noteq> [] \<and> \<not> (length l < 40 \<and> (\<exists>j\<in>set JUNK_KEYWORDS. \<exists>a b. l = a @ j @ b)))
       (map strip (splitlines text))" .
  show ?thesis
    by (simp only: e [symmetric] clean_text_final_univ_def Let_def) simp
qed

theorem junk_lines_dropped_witness:
  "splitlines (u '' intro '' @ [10] @ u ''Login here'' @ [13, 10] @ u ''body'') =
     [u '' intro '', u ''Login here'', u ''body'']
   \<and> filter_lines [] (splitlines (u '' intro '' @ [10] @ u ''Login here'' @ [13, 10] @ u ''body'')) =
     [u ''intro'', u ''body'']
   \<and> clean_text_final_univ html5_core
        (u '' intro '' @ [10] @ u ''Login here'' @ [13, 10] @ u ''body'') = Inr (u ''intro body'')"
proof -
  let ?t = "u '' intro '' @ [10] @ u ''Login here'' @ [13, 10] @ u ''body''"
  have s: "splitlines ?t = [u '' intro '', u ''Login here'', u ''body'']"
    by (simp add: splitlines_def str_ev)
  have f: "filter_lines [] [u '' intro '', u ''Login here'', u ''body''] = [u ''intro'', u ''body'']"
    by (simp add: strip_def any_junk_def JUNK_KEYWORDS_def str_ev)
  have c: "clean_text_final_univ html5_core ?t = Inr (u ''intro body'')"
    by (simp add: clean_ev str_ev)
  have n: "?t \<noteq> []" by (simp add: u_def)
  from junk_lines_dropped [of ?t html5_core] s f c n
  show ?thesis by simp
qed

text \<open>
  The claim as stated fails for a blank line: the second of the three lines of
  \<open>a\<close>, newline, newline, \<open>b\<close> is empty, it is not shorter than 40 characters with a
  keyword in it, and it is dropped all the same.
\<close>

theorem blank_line_dropped_counterexample:
  "splitlines (u ''a'' @ [10, 10] @ u ''b'') = [u ''a'', [], u ''b'']
   \<and> \<not> (length (strip []) < 40 \<and> any_junk (strip []))
   \<and> filter_lines [] (splitlines (u ''a'' @ [10, 10] @ u ''b'')) = [u ''a'', u ''b'']"
  by (simp add: splitlines_def strip_def any_junk_def JUNK_KEYWORDS_def str_ev)

text \<open>
  C10. For every input, the string that the universal variant returns consists of ASCII
  letters, characters of the Thai ranges U+0E01..U+0E2E and U+0E30..U+0E4C, ASCII digits,
  periods and spaces; it has no line boundary; no two whitespace characters are adjacent;
  and when it is not empty it neither starts nor ends with whitespace. The variant returns
  a string for every input without an ampersand; with one, \<open>html.unescape\<close> may raise.
\<close>

theorem clean_text_final_univ_output:
  "(\<forall>out. clean_text_final_univ html5 text = Inr out \<longrightarrow>
      (\<forall>c\<in>set out. is_ascii_letter c \<or> is_thai c \<or> is_digit c \<or> c = 46 \<or> c = 32)
      \<and> (\<forall>c\<in>set out. \<not> is_linebreak c)
      \<and> (\<forall>i. Suc i < length out \<longrightarrow> \<not> (isspace (out ! i) \<and> isspace (out ! Suc i)))
      \<and> (out \<noteq> [] \<longrightarrow> \<not> isspace (hd out) \<and> \<not> isspace (last out)))
   \<and> (38 \<notin> set text \<longrightarrow> (\<exists>out. clean_text_final_univ html5 text = Inr out))"
proof (intro conjI allI impI ballI)
  fix out c
  assume "clean_text_final_univ html5 text = Inr out" and "c \<in> set out"
  then have "plain c \<or> c = 32" by (rule clean_univ_shape(3))
  then show "is_ascii_letter c \<or> is_thai c \<or> is_digit c \<or> c = 46 \<or> c = 32"
    by (auto simp: plain_def)
next
  fix out c
  assume "clean_text_final_univ html5 text = Inr out" and "c \<in> set out"
  then have "plain c \<or> c = 32" by (rule clean_univ_shape(3))
  then show "\<not> is_linebreak c"
    using plain_not_linebreak space_facts by blast
next
  fix out i
  assume "clean_text_final_univ html5 text = Inr out"
  then have "single_spaced out" by (rule clean_univ_shape(1))
  moreover assume "Suc i < length out"
  ultimately show "\<not> (isspace (out ! i) \<and> isspace (out ! Suc i))"
    by (rule single_spaced_nth)
next
  fix out
  assume "clean_text_final_univ html5 text = Inr out" and "out \<noteq> []"
  then show "\<not> isspace (hd out)"
    using clean_univ_shape(2) by blast
next
  fix out
  assume "clean_text_final_univ html5 text = Inr out" and "out \<noteq> []"
  then show "\<not> isspace (last out)"
    using clean_univ_shape(2) by blast
next
  assume "38 \<notin> set text"
  then show "\<exists>out. clean_text_final_univ html5 text = Inr out"
    by (rule clean_univ_no_amp)
qed

theorem clean_text_final_univ_output_witness:
  "clean_text_final_univ html5_core (u '' Hello,   world! '' @ [10, 8203] @ u ''&lt;b&gt; 1.5 '') =
     Inr (u ''Hello world b 1.5'')
   \<and> \<not> isspace (hd (u ''Hello world b 1.5''))
   \<and> \<not> isspace (last (u ''Hello world b 1.5''))
   \<and> (\<exists>out. clean_text_final_univ html5_core (u ''Hello world'') = Inr out)"
proof -
  let ?t = "u '' Hello,   world! '' @ [10, 8203] @ u ''&lt;b&gt; 1.5 ''"
  have v: "clean_text_final_univ html5_core ?t = Inr (u ''Hello world b 1.5'')"
    by (simp add: clean_ev str_ev unescape_ev)
  have n: "u ''Hello world b 1.5'' \<noteq> []"
    by (simp add: u_def)
  have a: "38 \<notin> set (u ''Hello world'')"
    by (simp add: u_def)
  from clean_text_final_univ_output [of html5_core ?t] v n
  have "\<not> isspace (hd (u ''Hello world b 1.5'')) \<and> \<not> isspace (last (u ''Hello world b 1.5''))"
    by blast
  moreover from clean_text_final_univ_output [of html5_core "u ''Hello world''"] a
  have "\<exists>out. clean_text_final_univ html5_core (u ''Hello world'') = Inr out"
    by blast
  ultimately show ?thesis using v by blast
qed


end
